theory Spec2Isabelle
  imports Complex_Main
begin

section \<open>Python values\<close>

text \<open>
  Python's unbounded integers are \<^typ>\<open>int\<close>. Python's floats (throughputs, clock
  readings, latencies) are idealised as \<^typ>\<open>real\<close>: rounding is not modelled.
  The exceptions that the modelled code can raise are values of \<open>exn\<close>.
\<close>

datatype exn = ZeroDivisionError | ValueError | RuntimeError | OverflowError

text \<open>True division \<open>a / b\<close>: raises \<open>ZeroDivisionError\<close> on a zero divisor.\<close>

definition py_div :: "real \<Rightarrow> real \<Rightarrow> exn + real" where
  "py_div a b = (if b = 0 then Inl ZeroDivisionError else Inr (a / b))"

text \<open>
  Truth value of the result of \<open>measure_latency\<close>, as tested by \<open>if latency:\<close>.
  \<open>None\<close> and \<open>0.0\<close> are false.
\<close>

definition truthy :: "real option \<Rightarrow> bool" where
  "truthy v = (case v of None \<Rightarrow> False | Some x \<Rightarrow> x \<noteq> 0)"

section \<open>One run: the shared state, the workers and the monitor\<close>

text \<open>
  \<open>download_chunk\<close> and \<open>monitor_performance\<close> are the same in both source files (methods
  of \<open>DownloadSpeedTester\<close>, closures of \<open>AdvancedDownloadTester.single_test\<close>). Their
  threads share \<open>total_bytes\<close>, \<open>running\<close> and the two deques. The run is modelled as a
  machine whose steps are the statements that touch the shared state; a schedule is the list of
  the steps in the order in which they take effect.
\<close>

type_synonym bytes = string

type_synonym sample = "real \<times> real"

text \<open>
  Where the monitor thread is: about to evaluate \<open>while running\<close>, inside \<open>time.sleep(1)\<close>
  (the loop test having succeeded), returned, or terminated by an exception.
\<close>

datatype mon_pc = AtTest | Sleeping | Exited | Died exn

record run_state =
  total_bytes :: int
  running :: bool
  start_time :: real
  pc :: mon_pc
  last_bytes :: int
  last_time :: real
  download_speeds :: "sample list"
  latencies :: "sample list"
  progress :: "(real \<times> real \<times> real \<times> real) list"

text \<open>
  The state when the threads start: \<open>total_bytes = 0\<close>, \<open>running = True\<close>, empty deques;
  the monitor has executed \<open>last_bytes = 0\<close> and \<open>last_time = time.time()\<close>.
\<close>

definition initial :: "real \<Rightarrow> real \<Rightarrow> run_state" where
  "initial t_start t_mon =
     \<lparr>total_bytes = 0, running = True, start_time = t_start, pc = AtTest,
      last_bytes = 0, last_time = t_mon, download_speeds = [], latencies = [],
      progress = []\<rparr>"

text \<open>
  The body of the \<open>for chunk in response.iter_content(...)\<close> loop of \<open>download_chunk\<close>
  for one received chunk, after its \<open>if not running: break\<close> test has passed:
  \<open>if chunk: chunk_len = len(chunk); ...; with lock: total_bytes += chunk_len\<close>.
\<close>

definition download_chunk :: "bytes \<Rightarrow> run_state \<Rightarrow> run_state" where
  "download_chunk chunk s =
     (if chunk \<noteq> [] then
        (let chunk_len = int (length chunk)
         in s\<lparr>total_bytes := total_bytes s + chunk_len\<rparr>)
      else s)"

text \<open>
  One pass through the body of the \<open>while running\<close> loop of \<open>monitor_performance\<close> after
  the sleep: \<open>now\<close> is what \<open>time.time()\<close> returns, \<open>stamp\<close> what \<open>datetime.now()\<close>
  returns and \<open>probe\<close> what \<open>measure_latency\<close> returns. The values computed for the
  progress line are kept in \<open>progress\<close>.
\<close>

definition monitor_tick :: "real \<Rightarrow> real \<Rightarrow> real option \<Rightarrow> run_state \<Rightarrow> exn + run_state" where
  "monitor_tick now stamp probe s =
     (let current_time = now;
          current_bytes = total_bytes s;
          time_diff = current_time - last_time s;
          bytes_diff = current_bytes - last_bytes s;
          body =
            (if time_diff > 0 then
               (case py_div (real_of_int bytes_diff) time_diff of
                  Inl e \<Rightarrow> Inl e
                | Inr speed_bps \<Rightarrow>
               (case py_div speed_bps (1024 * 1024) of
                  Inl e \<Rightarrow> Inl e
                | Inr speed_mbps \<Rightarrow>
                  (let s1 = s\<lparr>download_speeds := download_speeds s @ [(stamp, speed_mbps)]\<rparr>;
                       s2 = (if truthy probe
                             then s1\<lparr>latencies := latencies s1 @ [(stamp, the probe)]\<rparr>
                             else s1);
                       elapsed = current_time - start_time s
                   in (case py_div (real_of_int current_bytes) (1024 * 1024) of
                         Inl e \<Rightarrow> Inl e
                       | Inr total_mb \<Rightarrow>
                      (case (if elapsed > 0 then py_div total_mb elapsed else Inr 0) of
                         Inl e \<Rightarrow> Inl e
                       | Inr avg_speed \<Rightarrow>
                           Inr (s2\<lparr>progress := progress s2 @
                                  [(elapsed, total_mb, speed_mbps, avg_speed)]\<rparr>))))))
             else Inr s)
      in (case body of
            Inl e \<Rightarrow> Inl e
          | Inr s' \<Rightarrow> Inr (s'\<lparr>last_bytes := current_bytes, last_time := current_time\<rparr>)))"

text \<open>
  The steps of the threads other than the main thread:
  \<^item> \<open>Add tid chunk\<close>: worker \<open>tid\<close> runs \<open>download_chunk\<close>'s loop body for \<open>chunk\<close>;
  \<^item> \<open>MonTest\<close>: the monitor evaluates \<open>while running\<close>;
  \<^item> \<open>MonTick now stamp probe\<close>: the monitor's sleep ends and it runs the loop body.
  A step that the monitor cannot take where it is leaves the state unchanged.
\<close>

datatype event = Add nat bytes | MonTest | MonTick real real "real option"

fun thread_step :: "event \<Rightarrow> run_state \<Rightarrow> run_state" where
  "thread_step (Add tid chunk) s = download_chunk chunk s"
| "thread_step MonTest s =
     (if pc s = AtTest then s\<lparr>pc := (if running s then Sleeping else Exited)\<rparr> else s)"
| "thread_step (MonTick now stamp probe) s =
     (if pc s = Sleeping then
        (case monitor_tick now stamp probe s of
           Inl e \<Rightarrow> s\<lparr>pc := Died e\<rparr>
         | Inr s' \<Rightarrow> s'\<lparr>pc := AtTest\<rparr>)
      else s)"

fun exec :: "event list \<Rightarrow> run_state \<Rightarrow> run_state" where
  "exec [] s = s"
| "exec (e # es) s = exec es (thread_step e s)"

text \<open>The main thread's \<open>running = False\<close>.\<close>

definition stop :: "run_state \<Rightarrow> run_state" where
  "stop s = s\<lparr>running := False\<rparr>"

section \<open>One test: \<open>single_test\<close> and \<open>run_test\<close>\<close>

text \<open>
  What the main thread of a test does that is visible outside it, in order:
  \<open>self.create_session()\<close>, \<open>self.get_target_ip()\<close>, the \<open>start()\<close> of the monitor
  thread and of the download thread \<open>i\<close>, \<open>time.sleep(test_duration)\<close>,
  \<open>running = False\<close>, \<open>session.close()\<close> and \<open>self.create_charts()\<close>. Printing is left
  out.
\<close>

datatype effect =
    CreateSession | GetTargetIP | StartMonitor | StartDownload nat
  | Sleep int | StopRunning | CloseSession | CreateCharts

text \<open>
  What a test meets while it runs: how many threads \<open>Thread.start\<close> can still start
  before it raises \<open>RuntimeError\<close> (\<open>None\<close>: no limit), the clock readings at the start,
  the steps the other threads take before the main thread's \<open>running = False\<close>
  (\<open>during_run\<close>) and the steps they take afterwards (\<open>after_stop\<close>). The main thread then
  reads the counter and the deques one expression after the other, without the lock, while
  the other threads, which nothing joins, go on: the segment number \<open>i\<close> of \<open>after_stop\<close>
  holds the steps that take effect before the read number \<open>i\<close> of the main thread and
  after the one before it.
\<close>

record run_env =
  thread_limit :: "nat option"
  t_start :: real
  t_mon :: real
  during_run :: "event list"
  after_stop :: "event list list"

text \<open>
  The monitor thread is started first, then \<open>for i in range(num_threads)\<close> one download
  thread each; \<open>range\<close> of a number below 1 is empty.
\<close>

definition start_threads :: "nat option \<Rightarrow> int \<Rightarrow> effect list \<times> (exn + unit)" where
  "start_threads limit num_threads =
     (let ts = StartMonitor # map StartDownload [0..<nat num_threads]
      in case limit of
           None \<Rightarrow> (ts, Inr ())
         | Some k \<Rightarrow> if length ts \<le> k then (ts, Inr ()) else (take k ts, Inl RuntimeError))"

text \<open>
  \<open>time.sleep(secs)\<close> for an integer: the number of nanoseconds must fit 64 bits, or it
  raises \<open>OverflowError\<close>; a negative number raises \<open>ValueError\<close>.
\<close>

definition sleep_max :: int where
  "sleep_max = 9223372036"

definition py_sleep :: "int \<Rightarrow> exn + unit" where
  "py_sleep secs =
     (if secs < - sleep_max \<or> sleep_max < secs then Inl OverflowError
      else if secs < 0 then Inl ValueError
      else Inr ())"

text \<open>The state that the read number \<open>i\<close> of the main thread sees.\<close>

definition gap :: "run_env \<Rightarrow> nat \<Rightarrow> event list" where
  "gap env i = (if i < length (after_stop env) then after_stop env ! i else [])"

fun at_read :: "run_env \<Rightarrow> nat \<Rightarrow> run_state" where
  "at_read env 0 =
     exec (gap env 0) (stop (exec (during_run env) (initial (t_start env) (t_mon env))))"
| "at_read env (Suc i) = exec (gap env (Suc i)) (at_read env i)"

text \<open>The state in which the main thread reads \<open>total_bytes\<close>, its first read.\<close>

definition observed :: "run_env \<Rightarrow> run_state" where
  "observed env = at_read env 0"

text \<open>
  A list comprehension \<open>[v for _, v in dq]\<close> over a deque: \<open>at_iter\<close> is the deque when
  the iterator is created and \<open>at_end\<close> the deque at the last step of the iteration. A
  deque that has changed in between raises \<open>RuntimeError\<close> (deque mutated during
  iteration).
\<close>

definition comprehension :: "sample list \<Rightarrow> sample list \<Rightarrow> exn + real list" where
  "comprehension at_iter at_end =
     (if at_end \<noteq> at_iter then Inl RuntimeError else Inr (map snd at_iter))"

text \<open>\<open>max\<close> and \<open>min\<close> of a list: \<open>ValueError\<close> on the empty list.\<close>

definition py_max :: "real list \<Rightarrow> exn + real" where
  "py_max vs = (if vs = [] then Inl ValueError else Inr (Max (set vs)))"

definition py_min :: "real list \<Rightarrow> exn + real" where
  "py_min vs = (if vs = [] then Inl ValueError else Inr (Min (set vs)))"

text \<open>
  The dict stored in \<open>self.test_results[test_name]\<close> and returned by \<open>single_test\<close>. The
  keys \<open>'download_speeds'\<close> and \<open>'latencies'\<close> are the fields \<open>speeds\<close> and \<open>lats\<close>.
\<close>

record test_result =
  threads :: int
  duration :: int
  total_mb :: real
  avg_speed :: real
  speeds :: "sample list"
  lats :: "sample list"
  max_speed :: real
  min_speed :: real
  avg_latency :: real

text \<open>
  The reads of \<open>single_test\<close> after \<open>running = False\<close>, in the order of evaluation:
  \<^item> 0: \<open>total_bytes\<close>;
  \<^item> 1: \<open>list(download_speeds)\<close>; 2: \<open>list(latencies)\<close>;
  \<^item> 3, 4, 5: for \<open>'max_speed'\<close>, the test \<open>if download_speeds\<close>, the creation of the
    iterator of the comprehension and the last step of its iteration;
  \<^item> 6, 7, 8: the same for \<open>'min_speed'\<close>;
  \<^item> 9, 10, 11: the same for \<open>'avg_latency'\<close>, over \<open>latencies\<close>; 12: \<open>len(latencies)\<close>.
  The three definitions that follow are the expressions of the last three keys.
\<close>

definition max_speed_entry :: "run_env \<Rightarrow> exn + real" where
  "max_speed_entry env =
     (if download_speeds (at_read env 3) \<noteq> [] then
        (case comprehension (download_speeds (at_read env 4)) (download_speeds (at_read env 5)) of
           Inl e \<Rightarrow> Inl e
         | Inr vs \<Rightarrow> py_max vs)
      else Inr 0)"

definition min_speed_entry :: "run_env \<Rightarrow> exn + real" where
  "min_speed_entry env =
     (if download_speeds (at_read env 6) \<noteq> [] then
        (case comprehension (download_speeds (at_read env 7)) (download_speeds (at_read env 8)) of
           Inl e \<Rightarrow> Inl e
         | Inr vs \<Rightarrow> py_min vs)
      else Inr 0)"

definition avg_latency_entry :: "run_env \<Rightarrow> exn + real" where
  "avg_latency_entry env =
     (if latencies (at_read env 9) \<noteq> [] then
        (case comprehension (latencies (at_read env 10)) (latencies (at_read env 11)) of
           Inl e \<Rightarrow> Inl e
         | Inr vs \<Rightarrow> py_div (sum_list vs) (real (length (latencies (at_read env 12)))))
      else Inr 0)"

text \<open>
  \<open>AdvancedDownloadTester.single_test\<close>. An exception of \<open>time.sleep\<close> leaves the threads
  started; \<open>total_mb / test_duration\<close> raises \<open>ZeroDivisionError\<close> when the duration is 0;
  the dict is built key by key, and an exception in one of its expressions leaves the
  session open.
\<close>

definition single_test :: "int \<Rightarrow> int \<Rightarrow> run_env \<Rightarrow> effect list \<times> (exn + test_result)" where
  "single_test num_threads test_duration env =
     (case start_threads (thread_limit env) num_threads of
        (started, Inl e) \<Rightarrow> (CreateSession # started, Inl e)
      | (started, Inr u) \<Rightarrow>
     (case py_sleep test_duration of
        Inl e \<Rightarrow> (CreateSession # started, Inl e)
      | Inr u \<Rightarrow>
          (let so_far = CreateSession # started @ [Sleep test_duration, StopRunning];
               mb = real_of_int (total_bytes (at_read env 0)) / (1024 * 1024)
           in case py_div mb (real_of_int test_duration) of
                Inl e \<Rightarrow> (so_far, Inl e)
              | Inr avg \<Rightarrow>
             (case max_speed_entry env of
                Inl e \<Rightarrow> (so_far, Inl e)
              | Inr mx \<Rightarrow>
             (case min_speed_entry env of
                Inl e \<Rightarrow> (so_far, Inl e)
              | Inr mn \<Rightarrow>
             (case avg_latency_entry env of
                Inl e \<Rightarrow> (so_far, Inl e)
              | Inr al \<Rightarrow>
                  (so_far @ [CloseSession],
                   Inr \<lparr>threads = num_threads,
                        duration = test_duration,
                        total_mb = mb,
                        avg_speed = avg,
                        speeds = download_speeds (at_read env 1),
                        lats = latencies (at_read env 2),
                        max_speed = mx,
                        min_speed = mn,
                        avg_latency = al\<rparr>)))))))"

text \<open>
  What \<open>DownloadSpeedTester.run_test\<close> prints in its summary: the total, the average speed
  and, \<open>if self.latencies\<close>, the average, minimum and maximum latency.
\<close>

record report =
  rep_total_mb :: real
  rep_avg_speed :: real
  rep_latency :: "(real \<times> real \<times> real) option"

text \<open>
  The latency lines of the summary. The reads of \<open>run_test\<close> after \<open>self.running = False\<close>
  are: 0, \<open>self.total_bytes\<close>; 1, the test \<open>if self.latencies\<close>; 2 and 3, the creation of
  the iterator of \<open>[lat for _, lat in self.latencies]\<close> and the last step of its iteration.
  The average, the minimum and the maximum are taken of the list \<open>latency_values\<close>.
\<close>

definition latency_lines :: "run_env \<Rightarrow> exn + (real \<times> real \<times> real) option" where
  "latency_lines env =
     (if latencies (at_read env 1) \<noteq> [] then
        (case comprehension (latencies (at_read env 2)) (latencies (at_read env 3)) of
           Inl e \<Rightarrow> Inl e
         | Inr latency_values \<Rightarrow>
        (case py_div (sum_list latency_values) (real (length latency_values)) of
           Inl e \<Rightarrow> Inl e
         | Inr avg_l \<Rightarrow>
        (case py_min latency_values of
           Inl e \<Rightarrow> Inl e
         | Inr min_l \<Rightarrow>
        (case py_max latency_values of
           Inl e \<Rightarrow> Inl e
         | Inr max_l \<Rightarrow> Inr (Some (avg_l, min_l, max_l))))))
      else Inr None)"

text \<open>
  \<open>DownloadSpeedTester.run_test\<close> on a tester as its constructor leaves it
  (\<open>total_bytes = 0\<close>, \<open>running = True\<close>, empty deques).
\<close>

definition run_test :: "int \<Rightarrow> int \<Rightarrow> run_env \<Rightarrow> effect list \<times> (exn + report)" where
  "run_test num_threads test_duration env =
     (case start_threads (thread_limit env) num_threads of
        (started, Inl e) \<Rightarrow> (GetTargetIP # started, Inl e)
      | (started, Inr u) \<Rightarrow>
     (case py_sleep test_duration of
        Inl e \<Rightarrow> (GetTargetIP # started, Inl e)
      | Inr u \<Rightarrow>
          (let so_far = GetTargetIP # started @ [Sleep test_duration, StopRunning];
               mb = real_of_int (total_bytes (at_read env 0)) / (1024 * 1024)
           in case py_div mb (real_of_int test_duration) of
                Inl e \<Rightarrow> (so_far, Inl e)
              | Inr avg \<Rightarrow>
             (case latency_lines env of
                Inl e \<Rightarrow> (so_far, Inl e)
              | Inr ll \<Rightarrow>
                  (so_far @ [CreateCharts],
                   Inr \<lparr>rep_total_mb = mb, rep_avg_speed = avg, rep_latency = ll\<rparr>)))))"

section \<open>The concurrency sweep: \<open>find_max_concurrent_connections\<close>\<close>

text \<open>An entry \<open>{'threads': ..., 'speed': ...}\<close> of \<open>concurrent_results\<close>.\<close>

record point =
  p_threads :: int
  p_speed :: real

record sweep_state =
  max_connections :: int
  best_speed :: real
  concurrent_results :: "point list"
  current_threads :: int

text \<open>
  How the \<open>while\<close> loop is left: its condition is false (nothing is printed), the \<open>break\<close>
  after the message that a performance drop was detected, or the \<open>break\<close> of the
  \<open>except Exception\<close> handler after the message that the test failed.
\<close>

datatype loop_exit = Exhausted | Degraded | Failed exn

definition sweep_init :: sweep_state where
  "sweep_init =
     \<lparr>max_connections = 1, best_speed = 0, concurrent_results = [], current_threads = 1\<rparr>"

text \<open>\<open>[r['speed'] for r in concurrent_results[-3:]]\<close>\<close>

definition recent_speeds :: "point list \<Rightarrow> real list" where
  "recent_speeds results = map p_speed (drop (length results - 3) results)"

text \<open>The three nested \<open>if\<close>s that lead to the first \<open>break\<close>.\<close>

definition degradation :: "point list \<Rightarrow> real \<Rightarrow> bool" where
  "degradation results best =
     (length results \<ge> 3 \<and>
      (let recent = recent_speeds results
       in list_all (\<lambda>i. recent ! i \<ge> recent ! (i + 1)) [0..<length recent - 1] \<and>
          recent ! 0 - recent ! (length recent - 1) > best * 0.1))"

text \<open>Appending the point and updating the best configuration.\<close>

definition record_point :: "real \<Rightarrow> sweep_state \<Rightarrow> sweep_state" where
  "record_point avg s =
     (let s1 = s\<lparr>concurrent_results := concurrent_results s @
                  [\<lparr>p_threads = current_threads s, p_speed = avg\<rparr>]\<rparr>
      in if avg > best_speed s1
         then s1\<lparr>best_speed := avg, max_connections := current_threads s1\<rparr>
         else s1)"

text \<open>\<open>current_threads += step\<close>\<close>

definition advance :: "int \<Rightarrow> sweep_state \<Rightarrow> sweep_state" where
  "advance step s = s\<lparr>current_threads := current_threads s + step\<rparr>"

text \<open>
  The \<open>while current_threads <= max_test_threads\<close> loop. \<open>world k\<close> is what the test
  number \<open>k\<close> of the sweep meets (every test before a \<open>break\<close> records a point, so the
  number of the test is the number of points recorded). The loop need not end: \<open>None\<close> is
  a loop that runs forever.
\<close>

partial_function (option) sweep_loop ::
  "int \<Rightarrow> int \<Rightarrow> int \<Rightarrow> (nat \<Rightarrow> run_env) \<Rightarrow> sweep_state \<Rightarrow> (sweep_state \<times> loop_exit) option"
where
  "sweep_loop max_test_threads step test_duration world s =
     (if current_threads s \<le> max_test_threads then
        (case snd (single_test (current_threads s) test_duration
                     (world (length (concurrent_results s)))) of
           Inl e \<Rightarrow> Some (s, Failed e)
         | Inr result \<Rightarrow>
             (let s' = record_point (avg_speed result) s
              in if degradation (concurrent_results s') (best_speed s')
                 then Some (s', Degraded)
                 else sweep_loop max_test_threads step test_duration world (advance step s')))
      else Some (s, Exhausted))"

declare sweep_loop.simps [code]

text \<open>
  \<open>find_max_concurrent_connections\<close> returns \<open>(max_connections, best_speed)\<close> after
  handing \<open>concurrent_results\<close> to \<open>create_concurrent_chart\<close>.
\<close>

definition find_max_concurrent_connections ::
  "int \<Rightarrow> int \<Rightarrow> int \<Rightarrow> (nat \<Rightarrow> run_env) \<Rightarrow> (int \<times> real) option" where
  "find_max_concurrent_connections max_test_threads step test_duration world =
     map_option (\<lambda>(s, ex). (max_connections s, best_speed s))
       (sweep_loop max_test_threads step test_duration world sweep_init)"

section \<open>Auxiliary definitions\<close>

text \<open>
  An environment is quiet when the other threads take no step between the reads of the main
  thread: every step after \<open>running = False\<close> comes before the read of \<open>total_bytes\<close>.
\<close>

definition quiet :: "run_env \<Rightarrow> bool" where
  "quiet env = (length (after_stop env) \<le> 1)"

text \<open>
  The result of \<open>single_test\<close> when every read sees the state \<open>s\<close>.
\<close>

definition summary :: "int \<Rightarrow> int \<Rightarrow> run_state \<Rightarrow> test_result" where
  "summary n d s =
     \<lparr>threads = n, duration = d,
      total_mb = real_of_int (total_bytes s) / (1024 * 1024),
      avg_speed = real_of_int (total_bytes s) / (1024 * 1024) / real_of_int d,
      speeds = download_speeds s, lats = latencies s,
      max_speed = (if download_speeds s \<noteq> [] then Max (set (map snd (download_speeds s))) else 0),
      min_speed = (if download_speeds s \<noteq> [] then Min (set (map snd (download_speeds s))) else 0),
      avg_latency = (if latencies s \<noteq> []
                     then sum_list (map snd (latencies s)) / real (length (latencies s)) else 0)\<rparr>"

text \<open>The summary of \<open>run_test\<close> when every read sees the state \<open>s\<close>.\<close>

definition final_report :: "int \<Rightarrow> run_state \<Rightarrow> report" where
  "final_report d s =
     \<lparr>rep_total_mb = real_of_int (total_bytes s) / (1024 * 1024),
      rep_avg_speed = real_of_int (total_bytes s) / (1024 * 1024) / real_of_int d,
      rep_latency =
        (if latencies s \<noteq> []
         then Some (sum_list (map snd (latencies s)) / real (length (map snd (latencies s))),
                    Min (set (map snd (latencies s))), Max (set (map snd (latencies s))))
         else None)\<rparr>"

text \<open>
  Invariants of the sweep loop: what \<open>best_speed\<close> and \<open>max_connections\<close> are in terms
  of the recorded points, and which worker counts the recorded points have.
\<close>

definition best_inv :: "sweep_state \<Rightarrow> bool" where
  "best_inv s =
     (list_all (\<lambda>p. 0 \<le> p_speed p) (concurrent_results s) \<and>
      (if concurrent_results s = []
       then current_threads s = 1 \<and> max_connections s = 1 \<and> best_speed s = 0
       else best_speed s = Max (set (map p_speed (concurrent_results s))) \<and>
            max_connections s =
              p_threads (hd (filter (\<lambda>p. p_speed p = best_speed s) (concurrent_results s)))))"

definition counts_inv :: "int \<Rightarrow> int \<Rightarrow> sweep_state \<Rightarrow> bool" where
  "counts_inv m st s =
     (map p_threads (concurrent_results s) =
        map (\<lambda>k. 1 + int k * st) [0..<length (concurrent_results s)] \<and>
      current_threads s = 1 + int (length (concurrent_results s)) * st \<and>
      list_all (\<lambda>p. p_threads p \<le> m) (concurrent_results s))"

text \<open>
  Example environments. In \<open>download_env n\<close> worker 0 receives \<open>n\<close> chunks of 8192 bytes
  and the monitor takes no step; nothing limits the number of threads. In \<open>mb_world mbs\<close>
  the test number \<open>k\<close> receives \<open>10 * mbs ! k\<close> MB, which over 10 seconds is \<open>mbs ! k\<close>
  MB/s. \<open>capped_world cap mbs\<close> is the same where no more than \<open>cap\<close> threads can be
  started in a test.
\<close>

definition full_chunk :: bytes where
  "full_chunk = replicate 8192 (CHR ''x'')"

definition download_env :: "nat \<Rightarrow> run_env" where
  "download_env n =
     \<lparr>thread_limit = None, t_start = 0, t_mon = 0,
      during_run = replicate n (Add 0 full_chunk), after_stop = []\<rparr>"

definition mb_world :: "nat list \<Rightarrow> nat \<Rightarrow> run_env" where
  "mb_world mbs k = download_env (1280 * (if k < length mbs then mbs ! k else 0))"

definition capped_world :: "nat \<Rightarrow> nat list \<Rightarrow> nat \<Rightarrow> run_env" where
  "capped_world cap mbs k = (mb_world mbs k)\<lparr>thread_limit := Some cap\<rparr>"

text \<open>
  In \<open>sampled_env\<close> the workers receive 1 MB in the first second and nothing afterwards;
  the monitor ticks after 1 and after 2 seconds, and its first latency probe answers in
  20 ms.
\<close>

definition sampled_env :: run_env where
  "sampled_env =
     \<lparr>thread_limit = None, t_start = 0, t_mon = 0,
      during_run = MonTest # replicate 128 (Add 0 full_chunk) @
                   [MonTick 1 1 (Some 20), MonTest, MonTick 2 2 None, MonTest],
      after_stop = []\<rparr>"

text \<open>
  In \<open>late_tick_env\<close> the workers receive 1 MB and the monitor is in its first sleep when
  \<open>running\<close> is cleared; its tick ends after the second read of the main thread and before
  the third, and the latency probe answers in 20 ms.
\<close>

definition late_tick_env :: run_env where
  "late_tick_env =
     \<lparr>thread_limit = None, t_start = 0, t_mon = 0,
      during_run = MonTest # replicate 128 (Add 0 full_chunk),
      after_stop = [] # [] # [MonTick 1 1 (Some 20)] # []\<rparr>"

text \<open>
  In \<open>mutating_env\<close> the monitor has taken one sample and is in its second sleep when
  \<open>running\<close> is cleared; its tick ends after the fifth read of the main thread and before
  the sixth.
\<close>

definition mutating_env :: run_env where
  "mutating_env =
     \<lparr>thread_limit = None, t_start = 0, t_mon = 0,
      during_run = MonTest # replicate 128 (Add 0 full_chunk) @ [MonTick 1 1 None, MonTest],
      after_stop = [] # [] # [] # [] # [] # [MonTick 2 2 None] # []\<rparr>"

section \<open>The byte counter\<close>

lemma download_chunk_mono: "total_bytes s \<le> total_bytes (download_chunk chunk s)"
  by (simp add: download_chunk_def Let_def)

lemma monitor_tick_Inr:
  "monitor_tick now stamp probe s =
     Inr ((if now - last_time s > 0 then
             (if truthy probe
              then s\<lparr>download_speeds := download_speeds s @
                        [(stamp, real_of_int (total_bytes s - last_bytes s) / (now - last_time s) / (1024 * 1024))],
                      latencies := latencies s @ [(stamp, the probe)]\<rparr>
              else s\<lparr>download_speeds := download_speeds s @
                        [(stamp, real_of_int (total_bytes s - last_bytes s) / (now - last_time s) / (1024 * 1024))]\<rparr>)
             \<lparr>progress := progress s @
                [(now - start_time s, real_of_int (total_bytes s) / (1024 * 1024),
                  real_of_int (total_bytes s - last_bytes s) / (now - last_time s) / (1024 * 1024),
                  (if now - start_time s > 0
                   then real_of_int (total_bytes s) / (1024 * 1024) / (now - start_time s) else 0))]\<rparr>
           else s)
          \<lparr>last_bytes := total_bytes s, last_time := now\<rparr>)"
  by (simp add: monitor_tick_def Let_def py_div_def)

lemma step_total_bytes_mono: "total_bytes s \<le> total_bytes (thread_step e s)"
  by (cases e) (simp_all add: download_chunk_mono monitor_tick_Inr)

lemma exec_total_bytes_mono: "total_bytes s \<le> total_bytes (exec es s)"
proof (induction es arbitrary: s)
  case Nil
  show ?case by simp
next
  case (Cons e es)
  have "total_bytes s \<le> total_bytes (thread_step e s)" by (rule step_total_bytes_mono)
  also have "\<dots> \<le> total_bytes (exec es (thread_step e s))" by (rule Cons.IH)
  finally show ?case by simp
qed

lemma exec_append: "exec (es @ fs) s = exec fs (exec es s)"
  by (induction es arbitrary: s) simp_all

lemma exec_pc_not_Died: "pc s \<noteq> Died e \<Longrightarrow> pc (exec es s) \<noteq> Died e"
proof (induction es arbitrary: s)
  case Nil
  then show ?case by simp
next
  case (Cons a es)
  have "pc (thread_step a s) \<noteq> Died e"
    using Cons.prems by (cases a) (simp_all add: download_chunk_def monitor_tick_Inr)
  then show ?case using Cons.IH by simp
qed

text \<open>
  Claim C8. The byte counter of a run starts at zero; a worker's step adds the length of the
  chunk it received, which is not negative; and at every point of every schedule of the
  workers' and the monitor's steps the counter is not negative and not smaller than at any
  earlier point, also across the main thread's clearing of \<open>running\<close>.
\<close>

theorem byte_counter_monotone:
  "total_bytes (initial t0 t1) = 0 \<and>
   total_bytes (thread_step (Add tid chunk) s) = total_bytes s + int (length chunk) \<and>
   0 \<le> total_bytes (exec es (initial t0 t1)) \<and>
   total_bytes (exec es (initial t0 t1)) \<le> total_bytes (exec (es @ fs) (initial t0 t1)) \<and>
   total_bytes (exec es (initial t0 t1)) \<le> total_bytes (exec fs (stop (exec es (initial t0 t1))))"
proof -
  have a: "total_bytes (initial t0 t1) = 0" by (simp add: initial_def)
  have b: "total_bytes (thread_step (Add tid chunk) s) = total_bytes s + int (length chunk)"
    by (simp add: download_chunk_def)
  have c: "0 \<le> total_bytes (exec es (initial t0 t1))"
    using exec_total_bytes_mono [of "initial t0 t1" es] a by simp
  have d: "total_bytes (exec es (initial t0 t1)) \<le> total_bytes (exec (es @ fs) (initial t0 t1))"
    by (simp add: exec_append exec_total_bytes_mono)
  have "total_bytes (stop (exec es (initial t0 t1))) = total_bytes (exec es (initial t0 t1))"
    by (simp add: stop_def)
  then have e: "total_bytes (exec es (initial t0 t1))
      \<le> total_bytes (exec fs (stop (exec es (initial t0 t1))))"
    using exec_total_bytes_mono [of "stop (exec es (initial t0 t1))" fs] by simp
  from a b c d e show ?thesis by blast
qed

section \<open>The monitor's divisions\<close>

text \<open>
  Claim C10. A tick of the monitor never raises: each of its divisions has a divisor that is
  not zero where it is evaluated. When the elapsed time is not positive (zero in particular)
  the tick divides nothing and appends nothing: it only sets \<open>last_bytes\<close> and \<open>last_time\<close>.
  So in no schedule does the monitor thread end by an exception.
\<close>

theorem monitor_tick_guarded:
  "(\<exists>s'. monitor_tick now stamp probe s = Inr s') \<and>
   (now - last_time s \<le> 0 \<longrightarrow>
      monitor_tick now stamp probe s = Inr (s\<lparr>last_bytes := total_bytes s, last_time := now\<rparr>)) \<and>
   (\<forall>e. pc (exec es (initial t0 t1)) \<noteq> Died e)"
proof -
  have "pc (initial t0 t1) \<noteq> Died e" for e by (simp add: initial_def)
  then have "pc (exec es (initial t0 t1)) \<noteq> Died e" for e by (rule exec_pc_not_Died)
  then show ?thesis by (simp add: monitor_tick_Inr)
qed

theorem monitor_tick_guarded_witness:
  "(5::real) - last_time (exec [Add 0 ''abc''] (initial 0 5)) \<le> 0 \<and>
   monitor_tick 5 6 (Some 20) (exec [Add 0 ''abc''] (initial 0 5)) =
     Inr (exec [Add 0 ''abc''] (initial 0 5)\<lparr>last_bytes := 3, last_time := 5\<rparr>)"
  using monitor_tick_guarded [of 5 6 "Some 20" "exec [Add 0 ''abc''] (initial 0 5)" "[]" 0 0]
  by (simp add: initial_def download_chunk_def)

section \<open>Facts about one test\<close>

declare at_read.simps [simp del]

lemma at_read_total_nonneg: "0 \<le> total_bytes (at_read env i)"
proof (induction i)
  case 0
  have "total_bytes (initial (t_start env) (t_mon env)) = 0" by (simp add: initial_def)
  then have "0 \<le> total_bytes (exec (during_run env) (initial (t_start env) (t_mon env)))"
    using exec_total_bytes_mono [of "initial (t_start env) (t_mon env)" "during_run env"] by simp
  then have "0 \<le> total_bytes (stop (exec (during_run env) (initial (t_start env) (t_mon env))))"
    by (simp add: stop_def)
  also have "\<dots> \<le> total_bytes (at_read env 0)"
    unfolding at_read.simps by (rule exec_total_bytes_mono)
  finally show ?case .
next
  case (Suc i)
  have "total_bytes (at_read env i) \<le> total_bytes (at_read env (Suc i))"
    unfolding at_read.simps by (rule exec_total_bytes_mono)
  with Suc show ?case by simp
qed

lemma observed_total_nonneg: "0 \<le> total_bytes (observed env)"
  unfolding observed_def by (rule at_read_total_nonneg)

lemma quiet_at_read: "quiet env \<Longrightarrow> at_read env i = observed env"
proof (induction i)
  case 0
  show ?case by (simp add: observed_def)
next
  case (Suc i)
  from Suc.prems have "gap env (Suc i) = []" by (simp add: gap_def quiet_def)
  with Suc show ?case by (simp add: at_read.simps)
qed

lemma thread_step_deques_grow:
  "length (download_speeds s) \<le> length (download_speeds (thread_step e s)) \<and>
   length (latencies s) \<le> length (latencies (thread_step e s))"
  by (cases e) (simp_all add: download_chunk_def monitor_tick_Inr)

lemma exec_deques_grow:
  "length (download_speeds s) \<le> length (download_speeds (exec es s)) \<and>
   length (latencies s) \<le> length (latencies (exec es s))"
proof (induction es arbitrary: s)
  case Nil
  show ?case by simp
next
  case (Cons e es)
  from thread_step_deques_grow [of s e] Cons.IH [of "thread_step e s"]
  show ?case by simp
qed

lemma at_read_deques_grow:
  "i \<le> j \<Longrightarrow>
   length (download_speeds (at_read env i)) \<le> length (download_speeds (at_read env j)) \<and>
   length (latencies (at_read env i)) \<le> length (latencies (at_read env j))"
proof (induction j)
  case 0
  then show ?case by simp
next
  case (Suc j)
  show ?case
  proof (cases "i = Suc j")
    case True
    then show ?thesis by simp
  next
    case False
    with Suc.prems have "i \<le> j" by simp
    from Suc.IH [OF this] exec_deques_grow [of "at_read env j" "gap env (Suc j)"]
    show ?thesis by (simp add: at_read.simps)
  qed
qed

lemma at_read_empty_earlier:
  assumes "i \<le> j"
  shows "download_speeds (at_read env j) = [] \<Longrightarrow> download_speeds (at_read env i) = []"
    and "latencies (at_read env j) = [] \<Longrightarrow> latencies (at_read env i) = []"
  using at_read_deques_grow [OF assms, of env] by simp_all

lemma max_speed_entry_quiet:
  "quiet env \<Longrightarrow> max_speed_entry env =
     Inr (if download_speeds (observed env) \<noteq> []
          then Max (set (map snd (download_speeds (observed env)))) else 0)"
  by (simp add: max_speed_entry_def quiet_at_read comprehension_def py_max_def)

lemma min_speed_entry_quiet:
  "quiet env \<Longrightarrow> min_speed_entry env =
     Inr (if download_speeds (observed env) \<noteq> []
          then Min (set (map snd (download_speeds (observed env)))) else 0)"
  by (simp add: min_speed_entry_def quiet_at_read comprehension_def py_min_def)

lemma avg_latency_entry_quiet:
  "quiet env \<Longrightarrow> avg_latency_entry env =
     Inr (if latencies (observed env) \<noteq> []
          then sum_list (map snd (latencies (observed env))) /
               real (length (latencies (observed env)))
          else 0)"
  by (simp add: avg_latency_entry_def quiet_at_read comprehension_def py_div_def)

lemma latency_lines_quiet:
  "quiet env \<Longrightarrow> latency_lines env =
     Inr (if latencies (observed env) \<noteq> []
          then Some (sum_list (map snd (latencies (observed env))) /
                       real (length (map snd (latencies (observed env)))),
                     Min (set (map snd (latencies (observed env)))),
                     Max (set (map snd (latencies (observed env)))))
          else None)"
  by (simp add: latency_lines_def quiet_at_read comprehension_def py_div_def py_min_def py_max_def)

lemma entries_empty:
  "download_speeds (at_read env 3) = [] \<Longrightarrow> max_speed_entry env = Inr 0"
  "download_speeds (at_read env 6) = [] \<Longrightarrow> min_speed_entry env = Inr 0"
  "latencies (at_read env 9) = [] \<Longrightarrow> avg_latency_entry env = Inr 0"
  "latencies (at_read env 1) = [] \<Longrightarrow> latency_lines env = Inr None"
  by (simp_all add: max_speed_entry_def min_speed_entry_def avg_latency_entry_def latency_lines_def)

lemma py_sleep_Inr: "(py_sleep d = Inr u) = (0 \<le> d \<and> d \<le> sleep_max)"
  by (auto simp: py_sleep_def sleep_max_def)

lemma single_test_not_started:
  assumes "start_threads (thread_limit env) n = (started, Inl e)"
  shows "single_test n d env = (CreateSession # started, Inl e)"
  using assms by (simp add: single_test_def)

lemma single_test_no_sleep:
  assumes "start_threads (thread_limit env) n = (started, Inr u)" and "py_sleep d = Inl e"
  shows "single_test n d env = (CreateSession # started, Inl e)"
  using assms by (simp add: single_test_def)

lemma single_test_zero:
  assumes "start_threads (thread_limit env) n = (started, Inr u)"
  shows "single_test n 0 env =
     (CreateSession # started @ [Sleep 0, StopRunning], Inl ZeroDivisionError)"
  using assms by (simp add: single_test_def py_sleep_def sleep_max_def py_div_def)

lemma single_test_positive:
  assumes "start_threads (thread_limit env) n = (started, Inr u)"
    and "0 < d" and "d \<le> sleep_max"
  shows "single_test n d env =
     (case max_speed_entry env of
        Inl e \<Rightarrow> (CreateSession # started @ [Sleep d, StopRunning], Inl e)
      | Inr mx \<Rightarrow>
     (case min_speed_entry env of
        Inl e \<Rightarrow> (CreateSession # started @ [Sleep d, StopRunning], Inl e)
      | Inr mn \<Rightarrow>
     (case avg_latency_entry env of
        Inl e \<Rightarrow> (CreateSession # started @ [Sleep d, StopRunning], Inl e)
      | Inr al \<Rightarrow>
          (CreateSession # started @ [Sleep d, StopRunning, CloseSession],
           Inr \<lparr>threads = n, duration = d,
                total_mb = real_of_int (total_bytes (at_read env 0)) / (1024 * 1024),
                avg_speed = real_of_int (total_bytes (at_read env 0)) / (1024 * 1024) / real_of_int d,
                speeds = download_speeds (at_read env 1),
                lats = latencies (at_read env 2),
                max_speed = mx, min_speed = mn, avg_latency = al\<rparr>))))"
proof -
  from assms(2,3) have "py_sleep d = Inr ()" by (simp add: py_sleep_def sleep_max_def)
  with assms(1,2) show ?thesis
    by (simp add: single_test_def py_div_def Let_def split: sum.split)
qed

lemma single_test_started:
  assumes "start_threads (thread_limit env) n = (started, Inr u)" and "quiet env"
  shows "single_test n d env =
     (if d < - sleep_max \<or> sleep_max < d then (CreateSession # started, Inl OverflowError)
      else if d < 0 then (CreateSession # started, Inl ValueError)
      else if d = 0 then (CreateSession # started @ [Sleep d, StopRunning], Inl ZeroDivisionError)
      else (CreateSession # started @ [Sleep d, StopRunning, CloseSession],
            Inr (summary n d (observed env))))"
proof -
  consider "d < - sleep_max \<or> sleep_max < d" | "- sleep_max \<le> d" "d < 0" | "d = 0"
    | "0 < d" "d \<le> sleep_max"
    by linarith
  then show ?thesis
  proof cases
    case 1
    then have "py_sleep d = Inl OverflowError" by (simp add: py_sleep_def)
    from single_test_no_sleep [OF assms(1) this] 1 show ?thesis by simp
  next
    case 2
    then have "py_sleep d = Inl ValueError" by (simp add: py_sleep_def sleep_max_def)
    from single_test_no_sleep [OF assms(1) this] 2 show ?thesis by (simp add: sleep_max_def)
  next
    case 3
    with single_test_zero [OF assms(1)] show ?thesis by (simp add: sleep_max_def)
  next
    case 4
    from single_test_positive [OF assms(1) 4] 4 assms(2) show ?thesis
      by (simp add: max_speed_entry_quiet min_speed_entry_quiet avg_latency_entry_quiet
          quiet_at_read summary_def sleep_max_def)
  qed
qed

lemma single_test_Inr_conj:
  assumes "snd (single_test n d env) = Inr r"
  shows "0 < d \<and> d \<le> sleep_max \<and>
     total_mb r = real_of_int (total_bytes (observed env)) / (1024 * 1024) \<and>
     avg_speed r = real_of_int (total_bytes (observed env)) / (1024 * 1024) / real_of_int d \<and>
     speeds r = download_speeds (at_read env 1) \<and>
     lats r = latencies (at_read env 2) \<and>
     max_speed_entry env = Inr (max_speed r) \<and>
     min_speed_entry env = Inr (min_speed r) \<and>
     avg_latency_entry env = Inr (avg_latency r)"
proof -
  obtain started res where st: "start_threads (thread_limit env) n = (started, res)"
    by (cases "start_threads (thread_limit env) n")
  show ?thesis
  proof (cases res)
    case (Inl e)
    with st have "single_test n d env = (CreateSession # started, Inl e)"
      by (simp add: single_test_not_started)
    with assms show ?thesis by simp
  next
    case (Inr u)
    with st have st': "start_threads (thread_limit env) n = (started, Inr u)" by simp
    show ?thesis
    proof (cases "py_sleep d")
      case (Inl e)
      from single_test_no_sleep [OF st' this] assms show ?thesis by simp
    next
      case sl: (Inr v)
      then have range: "0 \<le> d" "d \<le> sleep_max" by (simp_all add: py_sleep_Inr)
      show ?thesis
      proof (cases "d = 0")
        case True
        with single_test_zero [OF st'] assms show ?thesis by simp
      next
        case False
        with range have pos: "0 < d" by simp
        note eq = single_test_positive [OF st' pos range(2)]
        show ?thesis
        proof (cases "max_speed_entry env")
          case (Inl e)
          with eq assms show ?thesis by simp
        next
          case mx: (Inr mx)
          show ?thesis
          proof (cases "min_speed_entry env")
            case (Inl e)
            with eq mx assms show ?thesis by simp
          next
            case mn: (Inr mn)
            show ?thesis
            proof (cases "avg_latency_entry env")
              case (Inl e)
              with eq mx mn assms show ?thesis by simp
            next
              case al: (Inr al)
              from eq mx mn al assms have "r = \<lparr>threads = n, duration = d,
                total_mb = real_of_int (total_bytes (at_read env 0)) / (1024 * 1024),
                avg_speed = real_of_int (total_bytes (at_read env 0)) / (1024 * 1024) / real_of_int d,
                speeds = download_speeds (at_read env 1),
                lats = latencies (at_read env 2),
                max_speed = mx, min_speed = mn, avg_latency = al\<rparr>"
                by simp
              with pos range(2) mx mn al show ?thesis by (simp add: observed_def)
            qed
          qed
        qed
      qed
    qed
  qed
qed

lemma single_test_Inr:
  assumes "snd (single_test n d env) = Inr r"
  shows "0 < d" and "d \<le> sleep_max"
    and "total_mb r = real_of_int (total_bytes (observed env)) / (1024 * 1024)"
    and "avg_speed r = real_of_int (total_bytes (observed env)) / (1024 * 1024) / real_of_int d"
    and "speeds r = download_speeds (at_read env 1)"
    and "lats r = latencies (at_read env 2)"
    and "max_speed_entry env = Inr (max_speed r)"
    and "min_speed_entry env = Inr (min_speed r)"
    and "avg_latency_entry env = Inr (avg_latency r)"
  using single_test_Inr_conj [OF assms] by simp_all

lemma single_test_avg_nonneg:
  assumes "snd (single_test n d env) = Inr r"
  shows "0 \<le> avg_speed r"
proof -
  have "0 \<le> real_of_int (total_bytes (observed env)) / (1024 * 1024) / real_of_int d"
    using single_test_Inr(1) [OF assms] observed_total_nonneg [of env] by simp
  then show ?thesis
    unfolding single_test_Inr(4) [OF assms] .
qed

lemma run_test_not_started:
  assumes "start_threads (thread_limit env) n = (started, Inl e)"
  shows "run_test n d env = (GetTargetIP # started, Inl e)"
  using assms by (simp add: run_test_def)

lemma run_test_no_sleep:
  assumes "start_threads (thread_limit env) n = (started, Inr u)" and "py_sleep d = Inl e"
  shows "run_test n d env = (GetTargetIP # started, Inl e)"
  using assms by (simp add: run_test_def)

lemma run_test_zero:
  assumes "start_threads (thread_limit env) n = (started, Inr u)"
  shows "run_test n 0 env =
     (GetTargetIP # started @ [Sleep 0, StopRunning], Inl ZeroDivisionError)"
  using assms by (simp add: run_test_def py_sleep_def sleep_max_def py_div_def)

lemma run_test_positive:
  assumes "start_threads (thread_limit env) n = (started, Inr u)"
    and "0 < d" and "d \<le> sleep_max"
  shows "run_test n d env =
     (case latency_lines env of
        Inl e \<Rightarrow> (GetTargetIP # started @ [Sleep d, StopRunning], Inl e)
      | Inr ll \<Rightarrow>
          (GetTargetIP # started @ [Sleep d, StopRunning, CreateCharts],
           Inr \<lparr>rep_total_mb = real_of_int (total_bytes (at_read env 0)) / (1024 * 1024),
                rep_avg_speed =
                  real_of_int (total_bytes (at_read env 0)) / (1024 * 1024) / real_of_int d,
                rep_latency = ll\<rparr>))"
proof -
  from assms(2,3) have "py_sleep d = Inr ()" by (simp add: py_sleep_def sleep_max_def)
  with assms(1,2) show ?thesis
    by (simp add: run_test_def py_div_def Let_def split: sum.split)
qed

lemma run_test_started:
  assumes "start_threads (thread_limit env) n = (started, Inr u)" and "quiet env"
  shows "run_test n d env =
     (if d < - sleep_max \<or> sleep_max < d then (GetTargetIP # started, Inl OverflowError)
      else if d < 0 then (GetTargetIP # started, Inl ValueError)
      else if d = 0 then (GetTargetIP # started @ [Sleep d, StopRunning], Inl ZeroDivisionError)
      else (GetTargetIP # started @ [Sleep d, StopRunning, CreateCharts],
            Inr (final_report d (observed env))))"
proof -
  consider "d < - sleep_max \<or> sleep_max < d" | "- sleep_max \<le> d" "d < 0" | "d = 0"
    | "0 < d" "d \<le> sleep_max"
    by linarith
  then show ?thesis
  proof cases
    case 1
    then have "py_sleep d = Inl OverflowError" by (simp add: py_sleep_def)
    from run_test_no_sleep [OF assms(1) this] 1 show ?thesis by simp
  next
    case 2
    then have "py_sleep d = Inl ValueError" by (simp add: py_sleep_def sleep_max_def)
    from run_test_no_sleep [OF assms(1) this] 2 show ?thesis by (simp add: sleep_max_def)
  next
    case 3
    with run_test_zero [OF assms(1)] show ?thesis by (simp add: sleep_max_def)
  next
    case 4
    from run_test_positive [OF assms(1) 4] 4 assms(2) show ?thesis
      by (simp add: latency_lines_quiet quiet_at_read final_report_def sleep_max_def)
  qed
qed

lemma run_test_Inr:
  assumes "snd (run_test n d env) = Inr rep"
  shows "0 < d \<and> d \<le> sleep_max \<and>
     rep_total_mb rep = real_of_int (total_bytes (observed env)) / (1024 * 1024) \<and>
     rep_avg_speed rep =
       real_of_int (total_bytes (observed env)) / (1024 * 1024) / real_of_int d \<and>
     latency_lines env = Inr (rep_latency rep)"
proof -
  obtain started res where st: "start_threads (thread_limit env) n = (started, res)"
    by (cases "start_threads (thread_limit env) n")
  show ?thesis
  proof (cases res)
    case (Inl e)
    with st have "run_test n d env = (GetTargetIP # started, Inl e)"
      by (simp add: run_test_not_started)
    with assms show ?thesis by simp
  next
    case (Inr u)
    with st have st': "start_threads (thread_limit env) n = (started, Inr u)" by simp
    show ?thesis
    proof (cases "py_sleep d")
      case (Inl e)
      from run_test_no_sleep [OF st' this] assms show ?thesis by simp
    next
      case sl: (Inr v)
      then have range: "0 \<le> d" "d \<le> sleep_max" by (simp_all add: py_sleep_Inr)
      show ?thesis
      proof (cases "d = 0")
        case True
        with run_test_zero [OF st'] assms show ?thesis by simp
      next
        case False
        with range have pos: "0 < d" by simp
        note eq = run_test_positive [OF st' pos range(2)]
        show ?thesis
        proof (cases "latency_lines env")
          case (Inl e)
          with eq assms show ?thesis by simp
        next
          case ll: (Inr ll)
          from eq ll assms have "rep =
              \<lparr>rep_total_mb = real_of_int (total_bytes (at_read env 0)) / (1024 * 1024),
                rep_avg_speed =
                  real_of_int (total_bytes (at_read env 0)) / (1024 * 1024) / real_of_int d,
                rep_latency = ll\<rparr>"
            by simp
          with pos range(2) ll show ?thesis by (simp add: observed_def)
        qed
      qed
    qed
  qed
qed

text \<open>
  The deques only grow, so that a deque that passes its test \<open>if download_speeds\<close> or
  \<open>if latencies\<close> is not empty afterwards: \<open>max\<close>, \<open>min\<close> and the division by the length do
  not raise, and the only exception in the expressions of the result is the
  \<open>RuntimeError\<close> of a deque that changes during a comprehension.
\<close>

lemma max_speed_entry_Inl: "max_speed_entry env = Inl e \<Longrightarrow> e = RuntimeError"
  using at_read_deques_grow [of 3 4 env]
  by (auto simp: max_speed_entry_def comprehension_def py_max_def split: if_splits)

lemma min_speed_entry_Inl: "min_speed_entry env = Inl e \<Longrightarrow> e = RuntimeError"
  using at_read_deques_grow [of 6 7 env]
  by (auto simp: min_speed_entry_def comprehension_def py_min_def split: if_splits)

lemma avg_latency_entry_Inl: "avg_latency_entry env = Inl e \<Longrightarrow> e = RuntimeError"
  using at_read_deques_grow [of 9 12 env]
  by (auto simp: avg_latency_entry_def comprehension_def py_div_def split: if_splits)

lemma latency_lines_Inl: "latency_lines env = Inl e \<Longrightarrow> e = RuntimeError"
  using at_read_deques_grow [of 1 2 env]
  by (auto simp: latency_lines_def comprehension_def py_div_def py_min_def py_max_def
      split: if_splits)

lemma latency_lines_None:
  "latency_lines env = Inr ll \<Longrightarrow> (ll = None) = (latencies (at_read env 1) = [])"
  by (auto simp: latency_lines_def split: if_splits sum.splits)

lemma single_test_outcome:
  assumes "start_threads (thread_limit env) n = (started, Inr u)"
    and "0 < d" and "d \<le> sleep_max"
  shows "single_test n d env =
           (CreateSession # started @ [Sleep d, StopRunning], Inl RuntimeError) \<or>
         (\<exists>r. single_test n d env =
           (CreateSession # started @ [Sleep d, StopRunning, CloseSession], Inr r))"
  unfolding single_test_positive [OF assms]
  by (auto split: sum.splits
      dest: max_speed_entry_Inl min_speed_entry_Inl avg_latency_entry_Inl)

lemma run_test_outcome:
  assumes "start_threads (thread_limit env) n = (started, Inr u)"
    and "0 < d" and "d \<le> sleep_max"
  shows "run_test n d env =
           (GetTargetIP # started @ [Sleep d, StopRunning], Inl RuntimeError) \<or>
         (\<exists>rep. run_test n d env =
           (GetTargetIP # started @ [Sleep d, StopRunning, CreateCharts], Inr rep))"
  unfolding run_test_positive [OF assms]
  by (auto split: sum.splits dest: latency_lines_Inl)

lemma at_read_settled:
  assumes "length (after_stop env) \<le> Suc i" and "i \<le> k"
  shows "at_read env k = at_read env i"
  using assms(2)
proof (induction k)
  case 0
  then show ?case by simp
next
  case (Suc k)
  show ?case
  proof (cases "i = Suc k")
    case True
    then show ?thesis by simp
  next
    case False
    with Suc.prems have le: "i \<le> k" by simp
    with assms(1) have "gap env (Suc k) = []" by (simp add: gap_def)
    with Suc.IH [OF le] show ?thesis by (simp add: at_read.simps)
  qed
qed

section \<open>Facts about the sweep loop\<close>

lemma sweep_loop_unfold:
  "sweep_loop m st d w s =
     (if current_threads s \<le> m then
        (case snd (single_test (current_threads s) d (w (length (concurrent_results s)))) of
           Inl e \<Rightarrow> Some (s, Failed e)
         | Inr r \<Rightarrow>
             if degradation (concurrent_results (record_point (avg_speed r) s))
                  (best_speed (record_point (avg_speed r) s))
             then Some (record_point (avg_speed r) s, Degraded)
             else sweep_loop m st d w (advance st (record_point (avg_speed r) s)))
      else Some (s, Exhausted))"
  by (subst sweep_loop.simps) (simp add: Let_def split: sum.split)

lemma sweep_loop_rule:
  assumes ret: "sweep_loop m st d w s = Some (sf, ex)"
    and init: "I s"
    and pres: "\<And>s r. I s \<Longrightarrow> current_threads s \<le> m \<Longrightarrow>
        snd (single_test (current_threads s) d (w (length (concurrent_results s)))) = Inr r \<Longrightarrow>
        \<not> degradation (concurrent_results (record_point (avg_speed r) s))
             (best_speed (record_point (avg_speed r) s)) \<Longrightarrow>
        I (advance st (record_point (avg_speed r) s))"
  shows "\<exists>s0. I s0 \<and>
     ((ex = Exhausted \<and> sf = s0 \<and> \<not> current_threads s0 \<le> m) \<or>
      (\<exists>e. ex = Failed e \<and> sf = s0 \<and> current_threads s0 \<le> m \<and>
           snd (single_test (current_threads s0) d (w (length (concurrent_results s0)))) = Inl e) \<or>
      (\<exists>r. ex = Degraded \<and> current_threads s0 \<le> m \<and>
           snd (single_test (current_threads s0) d (w (length (concurrent_results s0)))) = Inr r \<and>
           sf = record_point (avg_speed r) s0 \<and>
           degradation (concurrent_results sf) (best_speed sf)))"
  using ret init pres
proof (induction m st d w s "(sf, ex)" rule: sweep_loop.raw_induct [rotated -1, consumes 1])
  case (1 loop m' st' d' w' s')
  note IH = "1.hyps"(1) and body = "1.hyps"(2) and I = "1.prems"(1) and pres' = "1.prems"(2)
  show ?case
  proof (cases "current_threads s' \<le> m'")
    case False
    with body I show ?thesis by auto
  next
    case True
    show ?thesis
    proof (cases "snd (single_test (current_threads s') d' (w' (length (concurrent_results s'))))")
      case (Inl e)
      with body True I show ?thesis by auto
    next
      case (Inr r)
      show ?thesis
      proof (cases "degradation (concurrent_results (record_point (avg_speed r) s'))
                      (best_speed (record_point (avg_speed r) s'))")
        case deg: True
        with body True Inr I show ?thesis by (auto simp: Let_def)
      next
        case nodeg: False
        from body True Inr nodeg
        have rec: "loop m' st' d' w' (advance st' (record_point (avg_speed r) s')) = Some (sf, ex)"
          by (simp add: Let_def)
        have "I (advance st' (record_point (avg_speed r) s'))"
          using pres' [OF I True Inr nodeg] .
        from IH [OF rec this pres'] show ?thesis .
      qed
    qed
  qed
qed

lemma current_threads_record_point [simp]:
  "current_threads (record_point avg s) = current_threads s"
  by (simp add: record_point_def Let_def)

lemma sweep_loop_terminates:
  assumes "1 \<le> st"
  shows "\<exists>r. sweep_loop m st d w s = Some r"
proof (induction "nat (m + 1 - current_threads s)" arbitrary: s rule: less_induct)
  case less
  show ?case
  proof (cases "current_threads s \<le> m")
    case False
    then show ?thesis by (subst sweep_loop_unfold) simp
  next
    case True
    show ?thesis
    proof (cases "snd (single_test (current_threads s) d (w (length (concurrent_results s))))")
      case (Inl e)
      with True show ?thesis by (subst sweep_loop_unfold) simp
    next
      case (Inr r)
      show ?thesis
      proof (cases "degradation (concurrent_results (record_point (avg_speed r) s))
                      (best_speed (record_point (avg_speed r) s))")
        case True
        with \<open>current_threads s \<le> m\<close> Inr show ?thesis by (subst sweep_loop_unfold) simp
      next
        case False
        have "nat (m + 1 - current_threads (advance st (record_point (avg_speed r) s)))
                < nat (m + 1 - current_threads s)"
          using assms \<open>current_threads s \<le> m\<close> by (simp add: advance_def)
        from less [OF this] obtain r' where
          "sweep_loop m st d w (advance st (record_point (avg_speed r) s)) = Some r'" by blast
        with \<open>current_threads s \<le> m\<close> Inr False show ?thesis
          by (subst sweep_loop_unfold) simp
      qed
    qed
  qed
qed

lemma sweep_loop_exhausted:
  "\<not> current_threads s \<le> m \<Longrightarrow> sweep_loop m st d w s = Some (s, Exhausted)"
  by (subst sweep_loop_unfold) simp

lemma sweep_loop_failed:
  "current_threads s \<le> m \<Longrightarrow>
   snd (single_test (current_threads s) d (w (length (concurrent_results s)))) = Inl e \<Longrightarrow>
   sweep_loop m st d w s = Some (s, Failed e)"
  by (subst sweep_loop_unfold) simp

lemma sweep_loop_degraded:
  "current_threads s \<le> m \<Longrightarrow>
   snd (single_test (current_threads s) d (w (length (concurrent_results s)))) = Inr r \<Longrightarrow>
   degradation (concurrent_results (record_point (avg_speed r) s))
     (best_speed (record_point (avg_speed r) s)) \<Longrightarrow>
   sweep_loop m st d w s = Some (record_point (avg_speed r) s, Degraded)"
  by (subst sweep_loop_unfold) simp

lemma sweep_loop_continue:
  "current_threads s \<le> m \<Longrightarrow>
   snd (single_test (current_threads s) d (w (length (concurrent_results s)))) = Inr r \<Longrightarrow>
   \<not> degradation (concurrent_results (record_point (avg_speed r) s))
     (best_speed (record_point (avg_speed r) s)) \<Longrightarrow>
   sweep_loop m st d w s = sweep_loop m st d w (advance st (record_point (avg_speed r) s))"
  by (subst sweep_loop_unfold) simp

lemma concurrent_results_record_point:
  "concurrent_results (record_point avg s) =
     concurrent_results s @ [\<lparr>p_threads = current_threads s, p_speed = avg\<rparr>]"
  by (simp add: record_point_def Let_def)

lemma best_speed_record_point:
  "best_speed (record_point avg s) = max (best_speed s) avg"
  by (simp add: record_point_def Let_def max_def)

lemma Max_achieved_filter:
  assumes "xs \<noteq> []"
  shows "filter (\<lambda>p. p_speed p = Max (set (map p_speed xs))) xs \<noteq> []"
proof -
  have "Max (set (map p_speed xs)) \<in> set (map p_speed xs)"
    using assms by (intro Max_in) simp_all
  then obtain p where "p \<in> set xs" "p_speed p = Max (set (map p_speed xs))" by auto
  then show ?thesis by (auto simp: filter_empty_conv)
qed

lemma best_inv_record_point:
  assumes inv: "best_inv s" and avg: "0 \<le> avg"
  shows "best_inv (record_point avg s)"
proof (cases "concurrent_results s = []")
  case True
  with inv avg show ?thesis
    by (auto simp: best_inv_def record_point_def Let_def)
next
  case False
  let ?xs = "concurrent_results s"
  let ?b = "Max (set (map p_speed ?xs))"
  from inv False have b: "best_speed s = ?b"
    and m: "max_connections s = p_threads (hd (filter (\<lambda>p. p_speed p = ?b) ?xs))"
    and pos: "list_all (\<lambda>p. 0 \<le> p_speed p) ?xs"
    by (simp_all add: best_inv_def)
  have ne: "filter (\<lambda>p. p_speed p = ?b) ?xs \<noteq> []" using False by (rule Max_achieved_filter)
  have fin: "finite (set (map p_speed ?xs))" "set (map p_speed ?xs) \<noteq> {}" using False by simp_all
  show ?thesis
  proof (cases "avg > ?b")
    case True
    have "\<forall>p\<in>set ?xs. p_speed p < avg"
    proof
      fix p assume "p \<in> set ?xs"
      then have "p_speed p \<le> ?b" by (intro Max_ge) simp_all
      with True show "p_speed p < avg" by simp
    qed
    then have none: "filter (\<lambda>p. p_speed p = avg) ?xs = []" by (auto simp: filter_empty_conv)
    have "Max (insert avg (set (map p_speed ?xs))) = max avg ?b"
      using fin by simp
    with True have mx: "Max (insert avg (p_speed ` set ?xs)) = avg" by simp
    from True b pos avg none mx show ?thesis
      by (simp add: best_inv_def record_point_def Let_def)
  next
    case le: False
    have "Max (insert avg (set (map p_speed ?xs))) = max avg ?b"
      using fin by simp
    with le have mx: "Max (insert avg (p_speed ` set ?xs)) = ?b" by simp
    from le b m pos avg ne mx show ?thesis
      by (simp add: best_inv_def record_point_def Let_def)
  qed
qed

lemma best_inv_advance:
  "concurrent_results s \<noteq> [] \<Longrightarrow> best_inv s \<Longrightarrow> best_inv (advance st s)"
  by (simp add: best_inv_def advance_def)

lemma record_point_nonempty [simp]: "concurrent_results (record_point avg s) \<noteq> []"
  by (simp add: record_point_def Let_def)

lemma best_inv_init: "best_inv sweep_init"
  by (simp add: best_inv_def sweep_init_def)

lemma sweep_loop_best_inv:
  assumes "sweep_loop m st d w sweep_init = Some (sf, ex)"
  shows "best_inv sf"
proof -
  have "\<exists>s0. best_inv s0 \<and>
     ((ex = Exhausted \<and> sf = s0 \<and> \<not> current_threads s0 \<le> m) \<or>
      (\<exists>e. ex = Failed e \<and> sf = s0 \<and> current_threads s0 \<le> m \<and>
           snd (single_test (current_threads s0) d (w (length (concurrent_results s0)))) = Inl e) \<or>
      (\<exists>r. ex = Degraded \<and> current_threads s0 \<le> m \<and>
           snd (single_test (current_threads s0) d (w (length (concurrent_results s0)))) = Inr r \<and>
           sf = record_point (avg_speed r) s0 \<and>
           degradation (concurrent_results sf) (best_speed sf)))"
    using assms best_inv_init
  proof (rule sweep_loop_rule)
    fix s r
    assume inv: "best_inv s"
      and run: "snd (single_test (current_threads s) d (w (length (concurrent_results s)))) = Inr r"
    from run have "0 \<le> avg_speed r" by (rule single_test_avg_nonneg)
    with inv have "best_inv (record_point (avg_speed r) s)" by (rule best_inv_record_point)
    then show "best_inv (advance st (record_point (avg_speed r) s))"
      by (simp add: best_inv_advance)
  qed
  then obtain s0 where inv: "best_inv s0" and cases:
     "(ex = Exhausted \<and> sf = s0 \<and> \<not> current_threads s0 \<le> m) \<or>
      (\<exists>e. ex = Failed e \<and> sf = s0 \<and> current_threads s0 \<le> m \<and>
           snd (single_test (current_threads s0) d (w (length (concurrent_results s0)))) = Inl e) \<or>
      (\<exists>r. ex = Degraded \<and> current_threads s0 \<le> m \<and>
           snd (single_test (current_threads s0) d (w (length (concurrent_results s0)))) = Inr r \<and>
           sf = record_point (avg_speed r) s0 \<and>
           degradation (concurrent_results sf) (best_speed sf))"
    by blast
  from cases show ?thesis
  proof (elim disjE exE conjE)
    assume "sf = s0" with inv show ?thesis by simp
  next
    fix e assume "sf = s0" with inv show ?thesis by simp
  next
    fix r
    assume run: "snd (single_test (current_threads s0) d (w (length (concurrent_results s0)))) = Inr r"
      and sf: "sf = record_point (avg_speed r) s0"
    from run have "0 \<le> avg_speed r" by (rule single_test_avg_nonneg)
    with inv show ?thesis unfolding sf by (rule best_inv_record_point)
  qed
qed

lemma counts_inv_init: "counts_inv m st sweep_init"
  by (simp add: counts_inv_def sweep_init_def)

lemma counts_record_point:
  assumes "counts_inv m st s" and "current_threads s \<le> m"
  shows "map p_threads (concurrent_results (record_point avg s)) =
           map (\<lambda>k. 1 + int k * st) [0..<length (concurrent_results (record_point avg s))]"
    and "list_all (\<lambda>p. p_threads p \<le> m) (concurrent_results (record_point avg s))"
    and "current_threads s = 1 + int (length (concurrent_results s)) * st"
  using assms by (simp_all add: counts_inv_def concurrent_results_record_point)

lemma counts_inv_step:
  assumes "counts_inv m st s" and "current_threads s \<le> m"
  shows "counts_inv m st (advance st (record_point avg s))"
proof -
  note c = counts_record_point(1,2) [OF assms, where avg = avg] counts_record_point(3) [OF assms]
  have "current_threads (advance st (record_point avg s)) =
      1 + int (length (concurrent_results (advance st (record_point avg s)))) * st"
    using c(3) by (simp add: advance_def concurrent_results_record_point distrib_right)
  moreover have "concurrent_results (advance st (record_point avg s)) =
      concurrent_results (record_point avg s)"
    by (simp add: advance_def)
  ultimately show ?thesis using c(1,2) by (simp add: counts_inv_def)
qed

lemma sweep_loop_counts:
  assumes "sweep_loop m st d w sweep_init = Some (sf, ex)"
  shows "map p_threads (concurrent_results sf) =
           map (\<lambda>k. 1 + int k * st) [0..<length (concurrent_results sf)]"
    and "list_all (\<lambda>p. p_threads p \<le> m) (concurrent_results sf)"
    and "ex = Exhausted \<Longrightarrow> m < 1 + int (length (concurrent_results sf)) * st"
proof -
  have "\<exists>s0. counts_inv m st s0 \<and>
     ((ex = Exhausted \<and> sf = s0 \<and> \<not> current_threads s0 \<le> m) \<or>
      (\<exists>e. ex = Failed e \<and> sf = s0 \<and> current_threads s0 \<le> m \<and>
           snd (single_test (current_threads s0) d (w (length (concurrent_results s0)))) = Inl e) \<or>
      (\<exists>r. ex = Degraded \<and> current_threads s0 \<le> m \<and>
           snd (single_test (current_threads s0) d (w (length (concurrent_results s0)))) = Inr r \<and>
           sf = record_point (avg_speed r) s0 \<and>
           degradation (concurrent_results sf) (best_speed sf)))"
    using assms counts_inv_init
  proof (rule sweep_loop_rule)
    fix s r
    assume "counts_inv m st s" and "current_threads s \<le> m"
    then show "counts_inv m st (advance st (record_point (avg_speed r) s))"
      by (rule counts_inv_step)
  qed
  then obtain s0 where inv: "counts_inv m st s0" and cases:
     "(ex = Exhausted \<and> sf = s0 \<and> \<not> current_threads s0 \<le> m) \<or>
      (\<exists>e. ex = Failed e \<and> sf = s0 \<and> current_threads s0 \<le> m \<and>
           snd (single_test (current_threads s0) d (w (length (concurrent_results s0)))) = Inl e) \<or>
      (\<exists>r. ex = Degraded \<and> current_threads s0 \<le> m \<and>
           snd (single_test (current_threads s0) d (w (length (concurrent_results s0)))) = Inr r \<and>
           sf = record_point (avg_speed r) s0 \<and>
           degradation (concurrent_results sf) (best_speed sf))"
    by blast
  have "map p_threads (concurrent_results sf) =
           map (\<lambda>k. 1 + int k * st) [0..<length (concurrent_results sf)] \<and>
        list_all (\<lambda>p. p_threads p \<le> m) (concurrent_results sf) \<and>
        (ex = Exhausted \<longrightarrow> m < 1 + int (length (concurrent_results sf)) * st)"
    using cases
  proof (elim disjE exE conjE)
    assume "ex = Exhausted" "sf = s0" "\<not> current_threads s0 \<le> m"
    with inv show ?thesis by (simp add: counts_inv_def)
  next
    fix e assume "ex = Failed e" "sf = s0"
    with inv show ?thesis by (simp add: counts_inv_def)
  next
    fix r
    assume "ex = Degraded" "current_threads s0 \<le> m" and sf: "sf = record_point (avg_speed r) s0"
    with counts_record_point(1,2) [OF inv \<open>current_threads s0 \<le> m\<close>, where avg = "avg_speed r"]
    show ?thesis by simp
  qed
  then show "map p_threads (concurrent_results sf) =
           map (\<lambda>k. 1 + int k * st) [0..<length (concurrent_results sf)]"
    and "list_all (\<lambda>p. p_threads p \<le> m) (concurrent_results sf)"
    and "ex = Exhausted \<Longrightarrow> m < 1 + int (length (concurrent_results sf)) * st"
    by simp_all
qed

lemma Min_filter_sorted:
  assumes "sorted (map f xs)" and "filter P xs \<noteq> []"
  shows "Min (set (map f (filter P xs))) = f (hd (filter P xs))"
  using assms
proof (induction xs)
  case Nil
  then show ?case by simp
next
  case (Cons x xs)
  show ?case
  proof (cases "P x")
    case True
    have "\<forall>y\<in>set (map f (filter P xs)). f x \<le> y"
      using Cons.prems(1) by auto
    then have "Min (insert (f x) (set (map f (filter P xs)))) = f x"
      by (intro Min_eqI) auto
    with True show ?thesis by simp
  next
    case False
    with Cons show ?thesis by simp
  qed
qed

lemma sorted_counts:
  assumes "0 \<le> st"
  shows "sorted (map (\<lambda>k. 1 + int k * st) [0..<n])"
proof -
  have "int i * st \<le> int j * st" if "i \<le> j" for i j
    using that assms by (simp add: mult_right_mono)
  then show ?thesis by (simp add: sorted_iff_nth_mono)
qed

lemma degradation_iff:
  "degradation pts best =
     (3 \<le> length pts \<and>
      p_speed (pts ! (length pts - 3)) \<ge> p_speed (pts ! (length pts - 2)) \<and>
      p_speed (pts ! (length pts - 2)) \<ge> p_speed (pts ! (length pts - 1)) \<and>
      p_speed (pts ! (length pts - 3)) - p_speed (pts ! (length pts - 1)) > best * 0.1)"
proof (cases "3 \<le> length pts")
  case False
  then show ?thesis by (simp add: degradation_def)
next
  case True
  define n where "n = length pts - 3"
  have len: "length pts = n + 3" using True by (simp add: n_def)
  have two: "[0..<2] = [0, Suc 0]" by (simp add: upt_rec numeral_2_eq_2)
  show ?thesis
    using True
    by (simp add: degradation_def recent_speeds_def Let_def len two add.commute)
qed

section \<open>Evaluating tests and sweeps in the example environments\<close>

lemma download_chunk_eq:
  "download_chunk c s = s\<lparr>total_bytes := total_bytes s + int (length c)\<rparr>"
  by (simp add: download_chunk_def)

lemma exec_replicate_Add:
  "exec (replicate n (Add t c)) s = s\<lparr>total_bytes := total_bytes s + int n * int (length c)\<rparr>"
proof (induction n arbitrary: s)
  case 0
  show ?case by simp
next
  case (Suc n)
  have "exec (replicate (Suc n) (Add t c)) s = exec (replicate n (Add t c)) (download_chunk c s)"
    by simp
  also have "\<dots> = (download_chunk c s)
      \<lparr>total_bytes := total_bytes (download_chunk c s) + int n * int (length c)\<rparr>"
    by (rule Suc.IH)
  also have "\<dots> = s\<lparr>total_bytes := total_bytes s + int (Suc n) * int (length c)\<rparr>"
    by (simp add: download_chunk_eq distrib_right)
  finally show ?case .
qed

lemma observed_download_env:
  "observed (download_env n) =
     (initial 0 0)\<lparr>total_bytes := int n * 8192, running := False\<rparr>"
  by (simp add: observed_def at_read.simps gap_def download_env_def exec_replicate_Add
      full_chunk_def stop_def initial_def)

lemma thread_limit_download_env [simp]: "thread_limit (download_env n) = None"
  by (simp add: download_env_def)

lemma quiet_download_env [simp]: "quiet (download_env n)"
  by (simp add: quiet_def download_env_def)

lemma quiet_thread_limit [simp]: "quiet (env\<lparr>thread_limit := l\<rparr>) = quiet env"
  by (simp add: quiet_def)

lemma start_threads_unlimited:
  "start_threads None n = (StartMonitor # map StartDownload [0..<nat n], Inr ())"
  by (simp add: start_threads_def)

lemma single_test_download_env:
  assumes "0 < d" and "d \<le> sleep_max"
  shows "snd (single_test n d (download_env k)) =
     Inr \<lparr>threads = n, duration = d, total_mb = real k / 128,
          avg_speed = real k / 128 / real_of_int d, speeds = [], lats = [],
          max_speed = 0, min_speed = 0, avg_latency = 0\<rparr>"
proof -
  have st: "start_threads (thread_limit (download_env k)) n =
      (StartMonitor # map StartDownload [0..<nat n], Inr ())"
    by (simp add: start_threads_unlimited)
  have q: "quiet (download_env k)" by simp
  from single_test_started [OF st q, of d] assms show ?thesis
    by (simp add: summary_def observed_download_env initial_def)
qed

lemma avg_mb_world:
  "k < length mbs \<Longrightarrow> snd (single_test n 10 (mb_world mbs k)) =
     Inr \<lparr>threads = n, duration = 10, total_mb = real (mbs ! k) * 10,
          avg_speed = real (mbs ! k), speeds = [], lats = [],
          max_speed = 0, min_speed = 0, avg_latency = 0\<rparr>"
  by (simp add: mb_world_def single_test_download_env sleep_max_def)

lemma observed_thread_limit [simp]: "observed (env\<lparr>thread_limit := l\<rparr>) = observed env"
  by (simp add: observed_def at_read.simps gap_def)

lemma observed_mb_world:
  "k < length mbs \<Longrightarrow> observed (mb_world mbs k) =
     (initial 0 0)\<lparr>total_bytes := int (mbs ! k) * 10485760, running := False\<rparr>"
  by (simp add: mb_world_def observed_download_env)

lemma single_test_capped_ok:
  assumes "1 + nat n \<le> cap" and "k < length mbs"
  shows "snd (single_test n 10 (capped_world cap mbs k)) =
     Inr \<lparr>threads = n, duration = 10, total_mb = real (mbs ! k) * 10,
          avg_speed = real (mbs ! k), speeds = [], lats = [],
          max_speed = 0, min_speed = 0, avg_latency = 0\<rparr>"
proof -
  have st: "start_threads (thread_limit (capped_world cap mbs k)) n =
      (StartMonitor # map StartDownload [0..<nat n], Inr ())"
    using assms(1) by (simp add: capped_world_def start_threads_def)
  have q: "quiet (capped_world cap mbs k)" by (simp add: capped_world_def mb_world_def)
  from single_test_started [OF st q, of 10] assms(2) show ?thesis
    by (simp add: summary_def capped_world_def observed_mb_world initial_def sleep_max_def)
qed

lemma single_test_capped_fail:
  assumes "cap < 1 + nat n"
  shows "snd (single_test n d (capped_world cap mbs k)) = Inl RuntimeError"
proof -
  have "start_threads (thread_limit (capped_world cap mbs k)) n =
      (take cap (StartMonitor # map StartDownload [0..<nat n]), Inl RuntimeError)"
    using assms by (simp add: capped_world_def start_threads_def)
  then show ?thesis by (simp add: single_test_not_started)
qed

lemma sweep_loop_failed_eval:
  assumes "current_threads s \<le> m"
    and "isl (snd (single_test (current_threads s) d (w (length (concurrent_results s)))))"
  shows "sweep_loop m st d w s =
     Some (s, Failed (projl (snd (single_test (current_threads s) d (w (length (concurrent_results s)))))))"
proof -
  from assms(2) obtain e where
    "snd (single_test (current_threads s) d (w (length (concurrent_results s)))) = Inl e"
    by (cases "snd (single_test (current_threads s) d (w (length (concurrent_results s))))") simp_all
  with sweep_loop_failed [where w = w, OF assms(1)] show ?thesis by simp
qed

lemma sweep_loop_degraded_eval:
  assumes "current_threads s \<le> m"
    and "\<not> isl (snd (single_test (current_threads s) d (w (length (concurrent_results s)))))"
    and "degradation
     (concurrent_results (record_point (avg_speed (projr (snd (single_test (current_threads s) d
         (w (length (concurrent_results s))))))) s))
     (best_speed (record_point (avg_speed (projr (snd (single_test (current_threads s) d
         (w (length (concurrent_results s))))))) s))"
  shows "sweep_loop m st d w s =
     Some (record_point (avg_speed (projr (snd (single_test (current_threads s) d
         (w (length (concurrent_results s))))))) s, Degraded)"
proof -
  from assms(2) obtain r where
    r: "snd (single_test (current_threads s) d (w (length (concurrent_results s)))) = Inr r"
    by (cases "snd (single_test (current_threads s) d (w (length (concurrent_results s))))") simp_all
  from assms(3) have "degradation (concurrent_results (record_point (avg_speed r) s))
      (best_speed (record_point (avg_speed r) s))" by (simp add: r)
  from sweep_loop_degraded [where w = w, OF assms(1) r this] show ?thesis by (simp add: r)
qed

lemma sweep_loop_continue_eval:
  assumes "current_threads s \<le> m"
    and "\<not> isl (snd (single_test (current_threads s) d (w (length (concurrent_results s)))))"
    and "\<not> degradation
     (concurrent_results (record_point (avg_speed (projr (snd (single_test (current_threads s) d
         (w (length (concurrent_results s))))))) s))
     (best_speed (record_point (avg_speed (projr (snd (single_test (current_threads s) d
         (w (length (concurrent_results s))))))) s))"
  shows "sweep_loop m st d w s =
     sweep_loop m st d w (advance st (record_point (avg_speed (projr (snd (single_test
         (current_threads s) d (w (length (concurrent_results s))))))) s))"
proof -
  from assms(2) obtain r where
    r: "snd (single_test (current_threads s) d (w (length (concurrent_results s)))) = Inr r"
    by (cases "snd (single_test (current_threads s) d (w (length (concurrent_results s))))") simp_all
  from assms(3) have "\<not> degradation (concurrent_results (record_point (avg_speed r) s))
      (best_speed (record_point (avg_speed r) s))" by (simp add: r)
  from sweep_loop_continue [where w = w, OF assms(1) r this] show ?thesis by (simp add: r)
qed

lemmas sweep_eval = sweep_loop_continue_eval sweep_loop_degraded_eval sweep_loop_failed_eval
  sweep_loop_exhausted sweep_init_def record_point_def advance_def degradation_def
  recent_speeds_def Let_def avg_mb_world single_test_capped_ok single_test_capped_fail

section \<open>Stopping on degradation\<close>

text \<open>
  Claim C1. In the sweep loop, when the test at the current worker count has completed and
  its point is recorded: if there are at least 3 points, the throughputs of the last 3 do not
  increase in recording order, and the first of the 3 minus the last of the 3 exceeds 0.1
  times the best throughput so far (the new point included), the loop stops there, through
  the \<open>break\<close> that follows the message that a performance drop was detected.
\<close>

theorem degradation_stops_sweep:
  assumes "current_threads s \<le> max_test_threads"
    and "snd (single_test (current_threads s) test_duration
               (world (length (concurrent_results s)))) = Inr result"
    and "pts = concurrent_results s @ [\<lparr>p_threads = current_threads s, p_speed = avg_speed result\<rparr>]"
    and "3 \<le> length pts"
    and "p_speed (pts ! (length pts - 3)) \<ge> p_speed (pts ! (length pts - 2))"
    and "p_speed (pts ! (length pts - 2)) \<ge> p_speed (pts ! (length pts - 1))"
    and "p_speed (pts ! (length pts - 3)) - p_speed (pts ! (length pts - 1))
           > 0.1 * max (best_speed s) (avg_speed result)"
  shows "sweep_loop max_test_threads step test_duration world s =
           Some (record_point (avg_speed result) s, Degraded) \<and>
         concurrent_results (record_point (avg_speed result) s) = pts \<and>
         best_speed (record_point (avg_speed result) s) = max (best_speed s) (avg_speed result)"
proof -
  let ?s' = "record_point (avg_speed result) s"
  have pts: "concurrent_results ?s' = pts"
    by (simp add: concurrent_results_record_point assms(3))
  have best: "best_speed ?s' = max (best_speed s) (avg_speed result)"
    by (rule best_speed_record_point)
  have "degradation pts (max (best_speed s) (avg_speed result))"
    using assms(4-7) by (simp add: degradation_iff mult.commute)
  then have "degradation (concurrent_results ?s') (best_speed ?s')"
    by (simp add: pts best)
  from sweep_loop_degraded [where w = world, OF assms(1) assms(2) this] pts best
  show ?thesis by simp
qed

theorem degradation_stops_sweep_witness:
  "sweep_loop 200 10 10 (mb_world [10, 8, 6]) sweep_init =
     Some (\<lparr>max_connections = 1, best_speed = 10,
             concurrent_results =
               [\<lparr>p_threads = 1, p_speed = 10\<rparr>, \<lparr>p_threads = 11, p_speed = 8\<rparr>,
                \<lparr>p_threads = 21, p_speed = 6\<rparr>],
             current_threads = 21\<rparr>, Degraded)"
proof -
  let ?w = "mb_world [10, 8, 6]"
  let ?s = "\<lparr>max_connections = 1, best_speed = 10,
             concurrent_results = [\<lparr>p_threads = 1, p_speed = 10\<rparr>, \<lparr>p_threads = 11, p_speed = 8\<rparr>],
             current_threads = 21\<rparr>"
  let ?r = "\<lparr>threads = 21, duration = 10, total_mb = 60, avg_speed = 6, speeds = [], lats = [],
            max_speed = 0, min_speed = 0, avg_latency = 0\<rparr>"
  let ?pts = "[\<lparr>p_threads = 1, p_speed = 10\<rparr>, \<lparr>p_threads = 11, p_speed = 8\<rparr>,
               \<lparr>p_threads = 21, p_speed = 6\<rparr>]"
  have reach: "sweep_loop 200 10 10 ?w sweep_init = sweep_loop 200 10 10 ?w ?s"
    by (simp add: sweep_loop_continue_eval sweep_init_def record_point_def advance_def
        degradation_def Let_def avg_mb_world)
  have h1: "current_threads ?s \<le> 200" by simp
  have h2: "snd (single_test (current_threads ?s) 10 (?w (length (concurrent_results ?s)))) = Inr ?r"
    by (simp add: avg_mb_world)
  have h3: "?pts = concurrent_results ?s @ [\<lparr>p_threads = current_threads ?s, p_speed = avg_speed ?r\<rparr>]"
    by simp
  have h4: "3 \<le> length ?pts" by simp
  have h5: "p_speed (?pts ! (length ?pts - 3)) \<ge> p_speed (?pts ! (length ?pts - 2))" by simp
  have h6: "p_speed (?pts ! (length ?pts - 2)) \<ge> p_speed (?pts ! (length ?pts - 1))" by simp
  have h7: "p_speed (?pts ! (length ?pts - 3)) - p_speed (?pts ! (length ?pts - 1))
      > 0.1 * max (best_speed ?s) (avg_speed ?r)" by simp
  from degradation_stops_sweep [where world = ?w and step = 10, OF h1 h2 h3 h4 h5 h6 h7]
  have "sweep_loop 200 10 10 ?w ?s = Some (record_point (avg_speed ?r) ?s, Degraded)" by blast
  with reach show ?thesis by (simp add: record_point_def Let_def)
qed

section \<open>The best configuration\<close>

text \<open>
  Claim C4. When the sweep returns with at least one recorded point, the returned best
  throughput is the maximum of the recorded throughputs and the returned best worker count
  is the worker count of the earliest recorded point that reaches this maximum; the step
  not being negative, this is the smallest worker count that reaches it.
\<close>

theorem best_is_maximum:
  assumes "sweep_loop max_test_threads step test_duration world sweep_init = Some (s, ex)"
    and "concurrent_results s \<noteq> []"
  shows "find_max_concurrent_connections max_test_threads step test_duration world =
           Some (max_connections s, best_speed s) \<and>
         best_speed s = Max (set (map p_speed (concurrent_results s))) \<and>
         max_connections s =
           p_threads (hd (filter (\<lambda>p. p_speed p = best_speed s) (concurrent_results s))) \<and>
         (0 \<le> step \<longrightarrow>
            max_connections s =
              Min (set (map p_threads
                     (filter (\<lambda>p. p_speed p = best_speed s) (concurrent_results s)))))"
proof -
  let ?pts = "concurrent_results s"
  let ?best = "filter (\<lambda>p. p_speed p = best_speed s) ?pts"
  have ret: "find_max_concurrent_connections max_test_threads step test_duration world =
      Some (max_connections s, best_speed s)"
    by (simp add: find_max_concurrent_connections_def assms(1))
  have "best_inv s" using assms(1) by (rule sweep_loop_best_inv)
  with assms(2) have b: "best_speed s = Max (set (map p_speed ?pts))"
    and m: "max_connections s = p_threads (hd ?best)"
    by (simp_all add: best_inv_def)
  have ne: "?best \<noteq> []"
    using Max_achieved_filter [OF assms(2)] b by simp
  have counts: "map p_threads ?pts = map (\<lambda>k. 1 + int k * step) [0..<length ?pts]"
    using assms(1) by (rule sweep_loop_counts(1))
  have "max_connections s = Min (set (map p_threads ?best))" if "0 \<le> step"
  proof -
    have "sorted (map p_threads ?pts)"
      unfolding counts using that by (rule sorted_counts)
    then have "Min (set (map p_threads ?best)) = p_threads (hd ?best)"
      using ne by (rule Min_filter_sorted)
    with m show ?thesis by simp
  qed
  with ret b m show ?thesis by blast
qed

theorem best_is_maximum_witness:
  "sweep_loop 200 10 10 (mb_world [5, 8, 8, 3]) sweep_init =
     Some (\<lparr>max_connections = 11, best_speed = 8,
             concurrent_results =
               [\<lparr>p_threads = 1, p_speed = 5\<rparr>, \<lparr>p_threads = 11, p_speed = 8\<rparr>,
                \<lparr>p_threads = 21, p_speed = 8\<rparr>, \<lparr>p_threads = 31, p_speed = 3\<rparr>],
             current_threads = 31\<rparr>, Degraded) \<and>
   find_max_concurrent_connections 200 10 10 (mb_world [5, 8, 8, 3]) = Some (11, 8) \<and>
   (8::real) = Max (set [5, 8, 8, 3]) \<and>
   (11::int) = Min (set [11, 21])"
proof -
  let ?s = "\<lparr>max_connections = 11, best_speed = 8,
             concurrent_results =
               [\<lparr>p_threads = 1, p_speed = 5\<rparr>, \<lparr>p_threads = 11, p_speed = 8\<rparr>,
                \<lparr>p_threads = 21, p_speed = 8\<rparr>, \<lparr>p_threads = 31, p_speed = 3\<rparr>],
             current_threads = 31\<rparr>"
  have run: "sweep_loop 200 10 10 (mb_world [5, 8, 8, 3]) sweep_init = Some (?s, Degraded)"
    by (simp add: sweep_eval)
  have ne: "concurrent_results ?s \<noteq> []" by simp
  from best_is_maximum [OF run ne] run show ?thesis by simp
qed

section \<open>Exhausting the range\<close>

text \<open>
  Claim C5, as amended. For a step of at least 1 the sweep always ends. The recorded points
  have the worker counts 1, 1 + step, 1 + 2 step, ... in this order. When the loop is left
  neither by the degradation \<open>break\<close> nor by the \<open>break\<close> of a failed test, it is left
  because the worker count exceeds \<open>max_test_threads\<close>, and the recorded counts are
  exactly the counts of this progression that do not exceed \<open>max_test_threads\<close>. The
  function returns the pair of the best worker count and the best throughput.
\<close>

theorem sweep_range_exhausted:
  assumes "1 \<le> step"
  shows "\<exists>s ex.
     sweep_loop max_test_threads step test_duration world sweep_init = Some (s, ex) \<and>
     find_max_concurrent_connections max_test_threads step test_duration world =
       Some (max_connections s, best_speed s) \<and>
     map p_threads (concurrent_results s) =
       map (\<lambda>k. 1 + int k * step) [0..<length (concurrent_results s)] \<and>
     (ex \<noteq> Degraded \<and> (\<forall>e. ex \<noteq> Failed e) \<longrightarrow>
        ex = Exhausted \<and>
        (\<forall>k. (1 + int k * step \<le> max_test_threads) = (k < length (concurrent_results s))))"
proof -
  from sweep_loop_terminates [OF assms]
  obtain r where "sweep_loop max_test_threads step test_duration world sweep_init = Some r"
    by blast
  then obtain s ex where
    run: "sweep_loop max_test_threads step test_duration world sweep_init = Some (s, ex)"
    by (cases r) simp
  let ?pts = "concurrent_results s"
  have ret: "find_max_concurrent_connections max_test_threads step test_duration world =
      Some (max_connections s, best_speed s)"
    by (simp add: find_max_concurrent_connections_def run)
  note counts = sweep_loop_counts [OF run]
  have all: "(1 + int k * step \<le> max_test_threads) = (k < length ?pts)"
    if ex: "ex = Exhausted" for k
  proof
    assume le: "1 + int k * step \<le> max_test_threads"
    from counts(3) [OF ex] le have "int k * step < int (length ?pts) * step" by simp
    with assms have "int k < int (length ?pts)" by (simp add: mult_less_cancel_right)
    then show "k < length ?pts" by simp
  next
    assume k: "k < length ?pts"
    then have "p_threads (?pts ! k) = map (\<lambda>k. 1 + int k * step) [0..<length ?pts] ! k"
      using counts(1) by (metis nth_map)
    with k have "p_threads (?pts ! k) = 1 + int k * step" by simp
    moreover have "p_threads (?pts ! k) \<le> max_test_threads"
      using counts(2) k by (simp add: list_all_length)
    ultimately show "1 + int k * step \<le> max_test_threads" by simp
  qed
  have "ex \<noteq> Degraded \<and> (\<forall>e. ex \<noteq> Failed e) \<longrightarrow>
        ex = Exhausted \<and> (\<forall>k. (1 + int k * step \<le> max_test_threads) = (k < length ?pts))"
    using all by (cases ex) simp_all
  with run ret counts(1) show ?thesis by blast
qed

theorem sweep_range_exhausted_witness:
  "sweep_loop 31 10 10 (mb_world [5, 6, 7, 8]) sweep_init =
     Some (\<lparr>max_connections = 31, best_speed = 8,
             concurrent_results =
               [\<lparr>p_threads = 1, p_speed = 5\<rparr>, \<lparr>p_threads = 11, p_speed = 6\<rparr>,
                \<lparr>p_threads = 21, p_speed = 7\<rparr>, \<lparr>p_threads = 31, p_speed = 8\<rparr>],
             current_threads = 41\<rparr>, Exhausted) \<and>
   find_max_concurrent_connections 31 10 10 (mb_world [5, 6, 7, 8]) = Some (31, 8) \<and>
   (\<forall>k. (1 + int k * 10 \<le> 31) = (k < length [5::nat, 6, 7, 8]))"
proof -
  let ?s = "\<lparr>max_connections = 31, best_speed = 8,
             concurrent_results =
               [\<lparr>p_threads = 1, p_speed = 5\<rparr>, \<lparr>p_threads = 11, p_speed = 6\<rparr>,
                \<lparr>p_threads = 21, p_speed = 7\<rparr>, \<lparr>p_threads = 31, p_speed = 8\<rparr>],
             current_threads = 41\<rparr>"
  have run: "sweep_loop 31 10 10 (mb_world [5, 6, 7, 8]) sweep_init = Some (?s, Exhausted)"
    by (simp add: sweep_eval)
  have "(1::int) \<le> 10" by simp
  from sweep_range_exhausted [OF this, of 31 10 "mb_world [5, 6, 7, 8]"] run
  show ?thesis by simp
qed

text \<open>
  With throughputs 5, 6, 7, 8 that never degrade, a test that cannot start its threads
  (32 threads where 25 can be started) ends the sweep before the count 31 is measured, and
  the range is not exhausted.
\<close>

theorem sweep_range_exhausted_counterexample:
  "sweep_loop 31 10 10 (capped_world 25 [5, 6, 7, 8]) sweep_init =
     Some (\<lparr>max_connections = 21, best_speed = 7,
             concurrent_results =
               [\<lparr>p_threads = 1, p_speed = 5\<rparr>, \<lparr>p_threads = 11, p_speed = 6\<rparr>,
                \<lparr>p_threads = 21, p_speed = 7\<rparr>],
             current_threads = 31\<rparr>, Failed RuntimeError) \<and>
   find_max_concurrent_connections 31 10 10 (capped_world 25 [5, 6, 7, 8]) = Some (21, 7)"
  by (simp add: find_max_concurrent_connections_def sweep_eval)

section \<open>A failing test\<close>

text \<open>
  Claim C6, as amended. When a test of the sweep raises an exception, the loop stops at
  once: no further test is run and the state is as it was before the test. The exception
  is caught; \<open>find_max_concurrent_connections\<close> returns normally, with the best worker
  count and throughput of the points recorded before.
\<close>

theorem failed_test_ends_sweep:
  "(current_threads s \<le> max_test_threads \<and>
    snd (single_test (current_threads s) test_duration
           (world (length (concurrent_results s)))) = Inl e \<longrightarrow>
      sweep_loop max_test_threads step test_duration world s = Some (s, Failed e)) \<and>
   (sweep_loop max_test_threads step test_duration world sweep_init = Some (sf, Failed e) \<longrightarrow>
      find_max_concurrent_connections max_test_threads step test_duration world =
        Some (max_connections sf, best_speed sf) \<and>
      current_threads sf \<le> max_test_threads \<and>
      snd (single_test (current_threads sf) test_duration
             (world (length (concurrent_results sf)))) = Inl e)"
proof -
  have a: "sweep_loop max_test_threads step test_duration world s = Some (s, Failed e)"
    if "current_threads s \<le> max_test_threads"
      and "snd (single_test (current_threads s) test_duration
             (world (length (concurrent_results s)))) = Inl e"
    using sweep_loop_failed [where w = world, OF that] .
  have b: "current_threads sf \<le> max_test_threads \<and>
      snd (single_test (current_threads sf) test_duration
             (world (length (concurrent_results sf)))) = Inl e"
    if run: "sweep_loop max_test_threads step test_duration world sweep_init = Some (sf, Failed e)"
  proof -
    have "\<exists>s0. True \<and>
     ((Failed e = Exhausted \<and> sf = s0 \<and> \<not> current_threads s0 \<le> max_test_threads) \<or>
      (\<exists>e'. Failed e = Failed e' \<and> sf = s0 \<and> current_threads s0 \<le> max_test_threads \<and>
           snd (single_test (current_threads s0) test_duration
                  (world (length (concurrent_results s0)))) = Inl e') \<or>
      (\<exists>r. Failed e = Degraded \<and> current_threads s0 \<le> max_test_threads \<and>
           snd (single_test (current_threads s0) test_duration
                  (world (length (concurrent_results s0)))) = Inr r \<and>
           sf = record_point (avg_speed r) s0 \<and>
           degradation (concurrent_results sf) (best_speed sf)))"
      using run by (rule sweep_loop_rule [where I = "\<lambda>s. True"]) simp_all
    then show ?thesis by auto
  qed
  from a b show ?thesis by (simp add: find_max_concurrent_connections_def)
qed

theorem failed_test_ends_sweep_witness:
  "current_threads sweep_init \<le> 200 \<and>
   snd (single_test (current_threads sweep_init) 0
          (mb_world [10, 8, 6] (length (concurrent_results sweep_init)))) = Inl ZeroDivisionError \<and>
   sweep_loop 200 10 0 (mb_world [10, 8, 6]) sweep_init = Some (sweep_init, Failed ZeroDivisionError) \<and>
   find_max_concurrent_connections 200 10 0 (mb_world [10, 8, 6]) = Some (1, 0)"
proof -
  have h1: "current_threads sweep_init \<le> 200" by (simp add: sweep_init_def)
  have "start_threads (thread_limit (mb_world [10, 8, 6] 0)) 1 =
      (StartMonitor # map StartDownload [0..<nat 1], Inr ())"
    by (simp add: mb_world_def start_threads_def)
  then have "snd (single_test 1 0 (mb_world [10, 8, 6] 0)) = Inl ZeroDivisionError"
    by (simp add: single_test_zero)
  then have h2: "snd (single_test (current_threads sweep_init) 0
          (mb_world [10, 8, 6] (length (concurrent_results sweep_init)))) = Inl ZeroDivisionError"
    by (simp add: sweep_init_def)
  from failed_test_ends_sweep [of sweep_init 200 0 "mb_world [10, 8, 6]" ZeroDivisionError 10 sweep_init]
    h1 h2
  show ?thesis by (simp add: sweep_init_def)
qed

text \<open>
  The second test of a sweep fails (12 threads where 8 can be started); the sweep returns
  the pair \<open>(1, 10)\<close> of the first point.
\<close>

theorem failed_test_ends_sweep_counterexample:
  "sweep_loop 200 10 10 (capped_world 8 [10, 12, 14]) sweep_init =
     Some (\<lparr>max_connections = 1, best_speed = 10,
             concurrent_results = [\<lparr>p_threads = 1, p_speed = 10\<rparr>],
             current_threads = 11\<rparr>, Failed RuntimeError) \<and>
   find_max_concurrent_connections 200 10 10 (capped_world 8 [10, 12, 14]) = Some (1, 10)"
  by (simp add: find_max_concurrent_connections_def sweep_eval)

section \<open>The results of one test\<close>

lemma quiet_sampled_env [simp]: "quiet sampled_env"
  by (simp add: quiet_def sampled_env_def)

lemma observed_sampled_env:
  "observed sampled_env =
     \<lparr>total_bytes = 1048576, running = False, start_time = 0, pc = Sleeping,
      last_bytes = 1048576, last_time = 2,
      download_speeds = [(1, 1), (2, 0)], latencies = [(1, 20)],
      progress = [(1, 1, 1, 1), (2, 1, 0, 1 / 2)]\<rparr>"
  by (simp add: observed_def at_read.simps gap_def sampled_env_def exec_append
      exec_replicate_Add full_chunk_def initial_def stop_def monitor_tick_Inr truthy_def)

text \<open>
  Three runs of \<open>single_test\<close> with 4 workers. In \<open>late_tick_env\<close> the result is built from
  two states of the deques. In \<open>mutating_env\<close> the sample appended during the comprehension
  of \<open>'max_speed'\<close> ends the test with \<open>RuntimeError\<close>, the session left open. A duration
  of 9223372037 seconds ends it in \<open>time.sleep\<close>, the threads started.
\<close>

lemma at_read_late_tick_env:
  "k \<le> 1 \<Longrightarrow> at_read late_tick_env k =
     \<lparr>total_bytes = 1048576, running = False, start_time = 0, pc = Sleeping,
      last_bytes = 0, last_time = 0, download_speeds = [], latencies = [], progress = []\<rparr>"
  "2 \<le> k \<Longrightarrow> at_read late_tick_env k =
     \<lparr>total_bytes = 1048576, running = False, start_time = 0, pc = AtTest,
      last_bytes = 1048576, last_time = 1, download_speeds = [(1, 1)], latencies = [(1, 20)],
      progress = [(1, 1, 1, 1)]\<rparr>"
proof -
  let ?s0 = "\<lparr>total_bytes = 1048576, running = False, start_time = 0, pc = Sleeping,
      last_bytes = 0, last_time = 0, download_speeds = [], latencies = [], progress = []\<rparr>"
  have gaps: "after_stop late_tick_env = [] # [] # [MonTick 1 1 (Some 20)] # []"
    by (simp add: late_tick_env_def)
  have a0: "at_read late_tick_env 0 = ?s0"
    by (simp add: at_read.simps gap_def late_tick_env_def exec_replicate_Add full_chunk_def
        initial_def stop_def)
  have a1: "at_read late_tick_env (Suc 0) = ?s0"
    by (simp add: at_read.simps(2) a0 gap_def gaps)
  have a2: "at_read late_tick_env (Suc (Suc 0)) =
     \<lparr>total_bytes = 1048576, running = False, start_time = 0, pc = AtTest,
      last_bytes = 1048576, last_time = 1, download_speeds = [(1, 1)], latencies = [(1, 20)],
      progress = [(1, 1, 1, 1)]\<rparr>"
    by (simp add: at_read.simps(2) a0 a1 gap_def gaps monitor_tick_Inr truthy_def)
  show "k \<le> 1 \<Longrightarrow> at_read late_tick_env k = ?s0"
    using a0 a1 by (cases k) simp_all
  have "length (after_stop late_tick_env) \<le> Suc (Suc (Suc 0))" by (simp add: gaps)
  from at_read_settled [OF this, of k] a2
  show "2 \<le> k \<Longrightarrow> at_read late_tick_env k =
     \<lparr>total_bytes = 1048576, running = False, start_time = 0, pc = AtTest,
      last_bytes = 1048576, last_time = 1, download_speeds = [(1, 1)], latencies = [(1, 20)],
      progress = [(1, 1, 1, 1)]\<rparr>"
    by simp
qed

lemma single_test_late_tick_env:
  "single_test 4 10 late_tick_env =
     ([CreateSession, StartMonitor, StartDownload 0, StartDownload 1, StartDownload 2,
       StartDownload 3, Sleep 10, StopRunning, CloseSession],
      Inr \<lparr>threads = 4, duration = 10, total_mb = 1, avg_speed = 1 / 10, speeds = [],
           lats = [(1, 20)], max_speed = 1, min_speed = 1, avg_latency = 20\<rparr>)"
proof -
  have st: "start_threads (thread_limit late_tick_env) 4 =
      ([StartMonitor, StartDownload 0, StartDownload 1, StartDownload 2, StartDownload 3], Inr ())"
    by (simp add: start_threads_def late_tick_env_def upt_rec)
  have "(0::int) < 10" and "(10::int) \<le> sleep_max" by (simp_all add: sleep_max_def)
  from single_test_positive [OF st this] show ?thesis
    by (simp add: max_speed_entry_def min_speed_entry_def avg_latency_entry_def
        at_read_late_tick_env comprehension_def py_max_def py_min_def py_div_def)
qed

lemma at_read_mutating_env:
  "k \<le> 4 \<Longrightarrow> at_read mutating_env k =
     \<lparr>total_bytes = 1048576, running = False, start_time = 0, pc = Sleeping,
      last_bytes = 1048576, last_time = 1, download_speeds = [(1, 1)], latencies = [],
      progress = [(1, 1, 1, 1)]\<rparr>"
  "at_read mutating_env 5 =
     \<lparr>total_bytes = 1048576, running = False, start_time = 0, pc = AtTest,
      last_bytes = 1048576, last_time = 2, download_speeds = [(1, 1), (2, 0)], latencies = [],
      progress = [(1, 1, 1, 1), (2, 1, 0, 1 / 2)]\<rparr>"
proof -
  let ?s0 = "\<lparr>total_bytes = 1048576, running = False, start_time = 0, pc = Sleeping,
      last_bytes = 1048576, last_time = 1, download_speeds = [(1, 1)], latencies = [],
      progress = [(1, 1, 1, 1)]\<rparr>"
  have gaps: "after_stop mutating_env = [] # [] # [] # [] # [] # [MonTick 2 2 None] # []"
    by (simp add: mutating_env_def)
  have a0: "at_read mutating_env 0 = ?s0"
    by (simp add: at_read.simps gap_def mutating_env_def exec_append exec_replicate_Add
        full_chunk_def initial_def stop_def monitor_tick_Inr truthy_def)
  have a1: "at_read mutating_env (Suc 0) = ?s0"
    by (simp add: at_read.simps(2) a0 gap_def gaps)
  have a2: "at_read mutating_env (Suc (Suc 0)) = ?s0"
    by (simp add: at_read.simps(2) a0 a1 gap_def gaps)
  have a3: "at_read mutating_env (Suc (Suc (Suc 0))) = ?s0"
    by (simp add: at_read.simps(2) a0 a2 gap_def gaps)
  have a4: "at_read mutating_env (Suc (Suc (Suc (Suc 0)))) = ?s0"
    by (simp add: at_read.simps(2) a0 a3 gap_def gaps)
  have "k \<le> 4 \<Longrightarrow> k = 0 \<or> k = Suc 0 \<or> k = Suc (Suc 0) \<or> k = Suc (Suc (Suc 0)) \<or>
      k = Suc (Suc (Suc (Suc 0)))"
    by arith
  with a0 a1 a2 a3 a4 show "k \<le> 4 \<Longrightarrow> at_read mutating_env k = ?s0" by auto
  have "at_read mutating_env (Suc (Suc (Suc (Suc (Suc 0))))) =
     \<lparr>total_bytes = 1048576, running = False, start_time = 0, pc = AtTest,
      last_bytes = 1048576, last_time = 2, download_speeds = [(1, 1), (2, 0)], latencies = [],
      progress = [(1, 1, 1, 1), (2, 1, 0, 1 / 2)]\<rparr>"
    by (simp add: at_read.simps(2) a0 a4 gap_def gaps monitor_tick_Inr truthy_def)
  then show "at_read mutating_env 5 =
     \<lparr>total_bytes = 1048576, running = False, start_time = 0, pc = AtTest,
      last_bytes = 1048576, last_time = 2, download_speeds = [(1, 1), (2, 0)], latencies = [],
      progress = [(1, 1, 1, 1), (2, 1, 0, 1 / 2)]\<rparr>"
    by (simp add: eval_nat_numeral)
qed

lemma single_test_mutating_env:
  "single_test 4 10 mutating_env =
     ([CreateSession, StartMonitor, StartDownload 0, StartDownload 1, StartDownload 2,
       StartDownload 3, Sleep 10, StopRunning],
      Inl RuntimeError)"
proof -
  have st: "start_threads (thread_limit mutating_env) 4 =
      ([StartMonitor, StartDownload 0, StartDownload 1, StartDownload 2, StartDownload 3], Inr ())"
    by (simp add: start_threads_def mutating_env_def upt_rec)
  have "(0::int) < 10" and "(10::int) \<le> sleep_max" by (simp_all add: sleep_max_def)
  from single_test_positive [OF st this] show ?thesis
    by (simp add: max_speed_entry_def at_read_mutating_env comprehension_def)
qed

lemma single_test_too_long:
  "single_test 4 9223372037 (download_env 0) =
     ([CreateSession, StartMonitor, StartDownload 0, StartDownload 1, StartDownload 2,
       StartDownload 3], Inl OverflowError)"
proof -
  have st: "start_threads (thread_limit (download_env 0)) 4 =
      ([StartMonitor, StartDownload 0, StartDownload 1, StartDownload 2, StartDownload 3], Inr ())"
    by (simp add: start_threads_def upt_rec)
  have "py_sleep 9223372037 = Inl OverflowError" by (simp add: py_sleep_def sleep_max_def)
  from single_test_no_sleep [OF st this] show ?thesis by simp
qed

text \<open>
  Claim C3. A test that completes has a positive duration, and its average throughput is
  the byte count read after the wait, divided by \<open>1024 * 1024\<close> and by the configured
  duration, in \<open>single_test\<close> and in \<open>run_test\<close>. The samples of the monitor do not enter
  it: the witness has samples 1 and 0 MB/s, of mean 1/2, and an average throughput of 1/10.
\<close>

theorem average_from_total_bytes:
  "(snd (single_test num_threads test_duration env) = Inr r \<longrightarrow>
      0 < test_duration \<and>
      total_mb r = real_of_int (total_bytes (observed env)) / (1024 * 1024) \<and>
      avg_speed r =
        real_of_int (total_bytes (observed env)) / (1024 * 1024) / real_of_int test_duration) \<and>
   (snd (run_test num_threads test_duration env) = Inr rep \<longrightarrow>
      0 < test_duration \<and>
      rep_total_mb rep = real_of_int (total_bytes (observed env)) / (1024 * 1024) \<and>
      rep_avg_speed rep =
        real_of_int (total_bytes (observed env)) / (1024 * 1024) / real_of_int test_duration)"
proof -
  have "0 < test_duration \<and>
      total_mb r = real_of_int (total_bytes (observed env)) / (1024 * 1024) \<and>
      avg_speed r =
        real_of_int (total_bytes (observed env)) / (1024 * 1024) / real_of_int test_duration"
    if "snd (single_test num_threads test_duration env) = Inr r"
    using single_test_Inr(1,3,4) [OF that] by simp
  moreover have "0 < test_duration \<and>
      rep_total_mb rep = real_of_int (total_bytes (observed env)) / (1024 * 1024) \<and>
      rep_avg_speed rep =
        real_of_int (total_bytes (observed env)) / (1024 * 1024) / real_of_int test_duration"
    if "snd (run_test num_threads test_duration env) = Inr rep"
    using run_test_Inr [OF that] by simp
  ultimately show ?thesis by blast
qed

theorem average_from_total_bytes_witness:
  "snd (single_test 4 10 sampled_env) =
     Inr \<lparr>threads = 4, duration = 10, total_mb = 1, avg_speed = 1 / 10,
          speeds = [(1, 1), (2, 0)], lats = [(1, 20)],
          max_speed = 1, min_speed = 0, avg_latency = 20\<rparr> \<and>
   snd (run_test 4 10 sampled_env) =
     Inr \<lparr>rep_total_mb = 1, rep_avg_speed = 1 / 10, rep_latency = Some (20, 20, 20)\<rparr> \<and>
   (0::int) < 10 \<and>
   (1 / 10 :: real) = real_of_int (total_bytes (observed sampled_env)) / (1024 * 1024) / real_of_int 10 \<and>
   sum_list (map snd [(1::real, 1::real), (2, 0)]) / real (length [(1::real, 1::real), (2, 0)]) = 1 / 2"
proof -
  have st: "start_threads (thread_limit sampled_env) 4 =
      (StartMonitor # map StartDownload [0..<nat 4], Inr ())"
    by (simp add: sampled_env_def start_threads_def)
  have q: "quiet sampled_env" by simp
  have a: "snd (single_test 4 10 sampled_env) =
     Inr \<lparr>threads = 4, duration = 10, total_mb = 1, avg_speed = 1 / 10,
          speeds = [(1, 1), (2, 0)], lats = [(1, 20)],
          max_speed = 1, min_speed = 0, avg_latency = 20\<rparr>"
    by (simp add: single_test_started [OF st q] summary_def observed_sampled_env sleep_max_def)
  have b: "snd (run_test 4 10 sampled_env) =
     Inr \<lparr>rep_total_mb = 1, rep_avg_speed = 1 / 10, rep_latency = Some (20, 20, 20)\<rparr>"
    by (simp add: run_test_started [OF st q] final_report_def observed_sampled_env sleep_max_def)
  from average_from_total_bytes [of 4 10 sampled_env
      "\<lparr>threads = 4, duration = 10, total_mb = 1, avg_speed = 1 / 10,
          speeds = [(1, 1), (2, 0)], lats = [(1, 20)],
          max_speed = 1, min_speed = 0, avg_latency = 20\<rparr>"
      "\<lparr>rep_total_mb = 1, rep_avg_speed = 1 / 10, rep_latency = Some (20, 20, 20)\<rparr>"] a b
  show ?thesis by simp
qed

text \<open>
  Claim C7, as amended. The result of a completed \<open>single_test\<close> always holds a number for
  the maximum throughput, the minimum throughput and the average latency. Each of the three
  is the number 0 when the deque of its samples is empty at the moment its expression tests
  it, and the list of samples in the result is then empty too. The list of samples in the
  result has been copied from the deque before: when no sample has been appended since, an
  empty list of throughput samples comes with a maximum and a minimum of 0 and an empty list
  of latency samples with an average latency of 0. The summary of a completed \<open>run_test\<close>
  has no minimum or maximum throughput; its latency figures are left out exactly when the
  deque of latency samples is empty at the test \<open>if self.latencies\<close>.
\<close>

theorem empty_series_reported_as_zero:
  "(snd (single_test num_threads test_duration env) = Inr r \<longrightarrow>
      (download_speeds (at_read env 3) = [] \<longrightarrow> max_speed r = 0 \<and> speeds r = []) \<and>
      (download_speeds (at_read env 6) = [] \<longrightarrow> min_speed r = 0 \<and> speeds r = []) \<and>
      (latencies (at_read env 9) = [] \<longrightarrow> avg_latency r = 0 \<and> lats r = []) \<and>
      (download_speeds (at_read env 6) = download_speeds (at_read env 1) \<and> speeds r = [] \<longrightarrow>
         max_speed r = 0 \<and> min_speed r = 0) \<and>
      (latencies (at_read env 9) = latencies (at_read env 2) \<and> lats r = [] \<longrightarrow>
         avg_latency r = 0)) \<and>
   (snd (run_test num_threads test_duration env) = Inr rep \<longrightarrow>
      (rep_latency rep = None) = (latencies (at_read env 1) = []))"
proof -
  have single: "(download_speeds (at_read env 3) = [] \<longrightarrow> max_speed r = 0 \<and> speeds r = []) \<and>
      (download_speeds (at_read env 6) = [] \<longrightarrow> min_speed r = 0 \<and> speeds r = []) \<and>
      (latencies (at_read env 9) = [] \<longrightarrow> avg_latency r = 0 \<and> lats r = []) \<and>
      (download_speeds (at_read env 6) = download_speeds (at_read env 1) \<and> speeds r = [] \<longrightarrow>
         max_speed r = 0 \<and> min_speed r = 0) \<and>
      (latencies (at_read env 9) = latencies (at_read env 2) \<and> lats r = [] \<longrightarrow>
         avg_latency r = 0)"
    if run: "snd (single_test num_threads test_duration env) = Inr r"
  proof -
    note sp = single_test_Inr(5) [OF run] and la = single_test_Inr(6) [OF run]
      and mx = single_test_Inr(7) [OF run] and mn = single_test_Inr(8) [OF run]
      and al = single_test_Inr(9) [OF run]
    have mx0: "max_speed r = 0" if "download_speeds (at_read env 3) = []"
      using entries_empty(1) [OF that] mx by simp
    have mn0: "min_speed r = 0" if "download_speeds (at_read env 6) = []"
      using entries_empty(2) [OF that] mn by simp
    have al0: "avg_latency r = 0" if "latencies (at_read env 9) = []"
      using entries_empty(3) [OF that] al by simp
    have a: "max_speed r = 0 \<and> speeds r = []" if e: "download_speeds (at_read env 3) = []"
      using mx0 [OF e] at_read_empty_earlier(1) [of 1 3 env, OF _ e] sp by simp
    have b: "min_speed r = 0 \<and> speeds r = []" if e: "download_speeds (at_read env 6) = []"
      using mn0 [OF e] at_read_empty_earlier(1) [of 1 6 env, OF _ e] sp by simp
    have c: "avg_latency r = 0 \<and> lats r = []" if e: "latencies (at_read env 9) = []"
      using al0 [OF e] at_read_empty_earlier(2) [of 2 9 env, OF _ e] la by simp
    have d: "max_speed r = 0 \<and> min_speed r = 0"
      if same: "download_speeds (at_read env 6) = download_speeds (at_read env 1)"
        and e: "speeds r = []"
    proof -
      from same e sp have e6: "download_speeds (at_read env 6) = []" by simp
      from at_read_empty_earlier(1) [of 3 6 env, OF _ e6]
      have "download_speeds (at_read env 3) = []" by simp
      from mx0 [OF this] mn0 [OF e6] show ?thesis by simp
    qed
    have e: "avg_latency r = 0"
      if "latencies (at_read env 9) = latencies (at_read env 2)" and "lats r = []"
      using that la al0 by simp
    from a b c d e show ?thesis by blast
  qed
  have "(rep_latency rep = None) = (latencies (at_read env 1) = [])"
    if run: "snd (run_test num_threads test_duration env) = Inr rep"
  proof -
    from run_test_Inr [OF run] have "latency_lines env = Inr (rep_latency rep)" by simp
    then show ?thesis by (rule latency_lines_None)
  qed
  with single show ?thesis by blast
qed

theorem empty_series_reported_as_zero_witness:
  "snd (single_test 1 10 (download_env 0)) =
     Inr \<lparr>threads = 1, duration = 10, total_mb = 0, avg_speed = 0, speeds = [], lats = [],
          max_speed = 0, min_speed = 0, avg_latency = 0\<rparr> \<and>
   snd (run_test 1 10 (download_env 0)) =
     Inr \<lparr>rep_total_mb = 0, rep_avg_speed = 0, rep_latency = None\<rparr>"
proof -
  let ?env = "download_env 0"
  let ?r = "\<lparr>threads = 1, duration = 10, total_mb = 0, avg_speed = 0, speeds = [], lats = [],
          max_speed = 0, min_speed = 0, avg_latency = 0\<rparr>"
  have st: "start_threads (thread_limit ?env) 1 =
      (StartMonitor # map StartDownload [0..<nat 1], Inr ())"
    by (simp add: start_threads_def)
  have q: "quiet ?env" by simp
  have reads: "download_speeds (at_read ?env 6) = download_speeds (at_read ?env 1)"
    "latencies (at_read ?env 9) = latencies (at_read ?env 2)"
    "latencies (at_read ?env 1) = []"
    by (simp_all add: quiet_at_read observed_download_env initial_def)
  have "\<exists>r. snd (single_test 1 10 ?env) = Inr r \<and>
      threads r = 1 \<and> duration r = 10 \<and> total_mb r = 0 \<and> avg_speed r = 0 \<and>
      speeds r = [] \<and> lats r = []"
    by (simp add: single_test_started [OF st q] summary_def observed_download_env initial_def
        sleep_max_def)
  then obtain r where run: "snd (single_test 1 10 ?env) = Inr r"
    and f: "threads r = 1" "duration r = 10" "total_mb r = 0" "avg_speed r = 0"
      "speeds r = []" "lats r = []"
    by blast
  have "\<exists>rep. snd (run_test 1 10 ?env) = Inr rep \<and> rep_total_mb rep = 0 \<and> rep_avg_speed rep = 0"
    by (simp add: run_test_started [OF st q] final_report_def observed_download_env initial_def
        sleep_max_def)
  then obtain rep where run': "snd (run_test 1 10 ?env) = Inr rep"
    and g: "rep_total_mb rep = 0" "rep_avg_speed rep = 0"
    by blast
  from empty_series_reported_as_zero [of 1 10 ?env r rep] run run' f reads
  have "max_speed r = 0 \<and> min_speed r = 0 \<and> avg_latency r = 0 \<and> rep_latency rep = None"
    by simp
  with f g have "r = ?r" and "rep = \<lparr>rep_total_mb = 0, rep_avg_speed = 0, rep_latency = None\<rparr>"
    by simp_all
  with run run' show ?thesis by simp
qed

text \<open>
  A test of 10 seconds with 4 workers that completes before the monitor has taken a sample:
  the result holds \<open>max_speed = 0\<close>, \<open>min_speed = 0\<close> and \<open>avg_latency = 0\<close>. The same test
  when the first tick of the monitor ends after the main thread has copied
  \<open>download_speeds\<close> and before it copies \<open>latencies\<close>: the list of throughput samples in the
  result is empty, and its maximum and minimum are 1.
\<close>

theorem empty_series_reported_as_zero_counterexample:
  "single_test 4 10 (download_env 1280) =
     ([CreateSession, StartMonitor, StartDownload 0, StartDownload 1, StartDownload 2,
       StartDownload 3, Sleep 10, StopRunning, CloseSession],
      Inr \<lparr>threads = 4, duration = 10, total_mb = 10, avg_speed = 1, speeds = [], lats = [],
           max_speed = 0, min_speed = 0, avg_latency = 0\<rparr>) \<and>
   single_test 4 10 late_tick_env =
     ([CreateSession, StartMonitor, StartDownload 0, StartDownload 1, StartDownload 2,
       StartDownload 3, Sleep 10, StopRunning, CloseSession],
      Inr \<lparr>threads = 4, duration = 10, total_mb = 1, avg_speed = 1 / 10, speeds = [],
           lats = [(1, 20)], max_speed = 1, min_speed = 1, avg_latency = 20\<rparr>)"
proof -
  have st: "start_threads (thread_limit (download_env 1280)) 4 =
      ([StartMonitor, StartDownload 0, StartDownload 1, StartDownload 2, StartDownload 3], Inr ())"
    by (simp add: start_threads_def upt_rec)
  have q: "quiet (download_env 1280)" by simp
  have "single_test 4 10 (download_env 1280) =
     ([CreateSession, StartMonitor, StartDownload 0, StartDownload 1, StartDownload 2,
       StartDownload 3, Sleep 10, StopRunning, CloseSession],
      Inr \<lparr>threads = 4, duration = 10, total_mb = 10, avg_speed = 1, speeds = [], lats = [],
           max_speed = 0, min_speed = 0, avg_latency = 0\<rparr>)"
    by (simp add: single_test_started [OF st q] summary_def observed_download_env initial_def
        sleep_max_def)
  with single_test_late_tick_env show ?thesis by simp
qed

section \<open>Configurations that the specification refuses\<close>

text \<open>
  Claim C2, as amended. Nothing validates the configuration. A duration of 0 or less
  makes the test fail, in \<open>single_test\<close> and in \<open>run_test\<close>, but only after the monitor
  and every download thread have been started: with \<open>ValueError\<close> from the wait when the
  duration is negative (\<open>OverflowError\<close> below -9223372036 seconds), with
  \<open>ZeroDivisionError\<close> after the wait and the clearing of \<open>running\<close> when it is 0. A worker
  count below 1 with a positive duration is not refused: the monitor is started and no
  download thread is. The wait raises \<open>OverflowError\<close> when the duration is above
  9223372036 seconds; otherwise the test waits, clears \<open>running\<close> and completes, with the
  result of the state it reads when the other threads take no step between its reads, and
  in any case unless a sample appended during one of its list comprehensions ends it with
  \<open>RuntimeError\<close>.
\<close>

theorem no_config_validation:
  "(test_duration \<le> 0 \<longrightarrow>
      (\<exists>e. snd (single_test num_threads test_duration env) = Inl e) \<and>
      (\<exists>e. snd (run_test num_threads test_duration env) = Inl e)) \<and>
   (test_duration \<le> 0 \<and> thread_limit env = None \<longrightarrow>
      single_test num_threads test_duration env =
        (if test_duration < 0
         then (CreateSession # StartMonitor # map StartDownload [0..<nat num_threads],
               Inl (if test_duration < - sleep_max then OverflowError else ValueError))
         else (CreateSession # StartMonitor # map StartDownload [0..<nat num_threads] @
                 [Sleep test_duration, StopRunning],
               Inl ZeroDivisionError)) \<and>
      run_test num_threads test_duration env =
        (if test_duration < 0
         then (GetTargetIP # StartMonitor # map StartDownload [0..<nat num_threads],
               Inl (if test_duration < - sleep_max then OverflowError else ValueError))
         else (GetTargetIP # StartMonitor # map StartDownload [0..<nat num_threads] @
                 [Sleep test_duration, StopRunning],
               Inl ZeroDivisionError))) \<and>
   (num_threads < 1 \<and> 0 < test_duration \<and> thread_limit env = None \<longrightarrow>
      (if sleep_max < test_duration then
         single_test num_threads test_duration env =
           ([CreateSession, StartMonitor], Inl OverflowError) \<and>
         run_test num_threads test_duration env =
           ([GetTargetIP, StartMonitor], Inl OverflowError)
       else if quiet env then
         single_test num_threads test_duration env =
           ([CreateSession, StartMonitor, Sleep test_duration, StopRunning, CloseSession],
            Inr (summary num_threads test_duration (observed env))) \<and>
         run_test num_threads test_duration env =
           ([GetTargetIP, StartMonitor, Sleep test_duration, StopRunning, CreateCharts],
            Inr (final_report test_duration (observed env)))
       else
         (single_test num_threads test_duration env =
            ([CreateSession, StartMonitor, Sleep test_duration, StopRunning],
             Inl RuntimeError) \<or>
          (\<exists>r. single_test num_threads test_duration env =
            ([CreateSession, StartMonitor, Sleep test_duration, StopRunning, CloseSession],
             Inr r))) \<and>
         (run_test num_threads test_duration env =
            ([GetTargetIP, StartMonitor, Sleep test_duration, StopRunning],
             Inl RuntimeError) \<or>
          (\<exists>rep. run_test num_threads test_duration env =
            ([GetTargetIP, StartMonitor, Sleep test_duration, StopRunning, CreateCharts],
             Inr rep)))))"
proof -
  have a: "(\<exists>e. snd (single_test num_threads test_duration env) = Inl e) \<and>
      (\<exists>e. snd (run_test num_threads test_duration env) = Inl e)"
    if d: "test_duration \<le> 0"
  proof -
    have "snd (single_test num_threads test_duration env) \<noteq> Inr r" for r
      using single_test_Inr(1) [of num_threads test_duration env r] d by auto
    moreover have "snd (run_test num_threads test_duration env) \<noteq> Inr rep" for rep
      using run_test_Inr [of num_threads test_duration env rep] d by auto
    ultimately show ?thesis
      by (metis sum.exhaust)
  qed
  have st: "start_threads (thread_limit env) num_threads =
      (StartMonitor # map StartDownload [0..<nat num_threads], Inr ())"
    if "thread_limit env = None"
    using that by (simp add: start_threads_unlimited)
  have b: "single_test num_threads test_duration env =
        (if test_duration < 0
         then (CreateSession # StartMonitor # map StartDownload [0..<nat num_threads],
               Inl (if test_duration < - sleep_max then OverflowError else ValueError))
         else (CreateSession # StartMonitor # map StartDownload [0..<nat num_threads] @
                 [Sleep test_duration, StopRunning],
               Inl ZeroDivisionError)) \<and>
      run_test num_threads test_duration env =
        (if test_duration < 0
         then (GetTargetIP # StartMonitor # map StartDownload [0..<nat num_threads],
               Inl (if test_duration < - sleep_max then OverflowError else ValueError))
         else (GetTargetIP # StartMonitor # map StartDownload [0..<nat num_threads] @
                 [Sleep test_duration, StopRunning],
               Inl ZeroDivisionError))"
    if d: "test_duration \<le> 0" and l: "thread_limit env = None"
  proof (cases "test_duration = 0")
    case True
    with single_test_zero [OF st [OF l]] run_test_zero [OF st [OF l]] show ?thesis by simp
  next
    case False
    with d have neg: "test_duration < 0" by simp
    then have "py_sleep test_duration =
        Inl (if test_duration < - sleep_max then OverflowError else ValueError)"
      by (simp add: py_sleep_def sleep_max_def)
    from single_test_no_sleep [OF st [OF l] this] run_test_no_sleep [OF st [OF l] this] neg
    show ?thesis by simp
  qed
  have c: "(if sleep_max < test_duration then
         single_test num_threads test_duration env =
           ([CreateSession, StartMonitor], Inl OverflowError) \<and>
         run_test num_threads test_duration env =
           ([GetTargetIP, StartMonitor], Inl OverflowError)
       else if quiet env then
         single_test num_threads test_duration env =
           ([CreateSession, StartMonitor, Sleep test_duration, StopRunning, CloseSession],
            Inr (summary num_threads test_duration (observed env))) \<and>
         run_test num_threads test_duration env =
           ([GetTargetIP, StartMonitor, Sleep test_duration, StopRunning, CreateCharts],
            Inr (final_report test_duration (observed env)))
       else
         (single_test num_threads test_duration env =
            ([CreateSession, StartMonitor, Sleep test_duration, StopRunning],
             Inl RuntimeError) \<or>
          (\<exists>r. single_test num_threads test_duration env =
            ([CreateSession, StartMonitor, Sleep test_duration, StopRunning, CloseSession],
             Inr r))) \<and>
         (run_test num_threads test_duration env =
            ([GetTargetIP, StartMonitor, Sleep test_duration, StopRunning],
             Inl RuntimeError) \<or>
          (\<exists>rep. run_test num_threads test_duration env =
            ([GetTargetIP, StartMonitor, Sleep test_duration, StopRunning, CreateCharts],
             Inr rep))))"
    if n: "num_threads < 1" and d: "0 < test_duration" and l: "thread_limit env = None"
  proof -
    from n st [OF l] have st0: "start_threads (thread_limit env) num_threads =
        ([StartMonitor], Inr ())"
      by simp
    show ?thesis
    proof (cases "sleep_max < test_duration")
      case True
      then have "py_sleep test_duration = Inl OverflowError" by (simp add: py_sleep_def)
      from single_test_no_sleep [OF st0 this] run_test_no_sleep [OF st0 this] True
      show ?thesis by simp
    next
      case False
      then have le: "test_duration \<le> sleep_max" by simp
      show ?thesis
      proof (cases "quiet env")
        case True
        from single_test_started [OF st0 True, of test_duration]
          run_test_started [OF st0 True, of test_duration] d le True
        show ?thesis by (simp add: sleep_max_def)
      next
        case nq: False
        from single_test_outcome [OF st0 d le] run_test_outcome [OF st0 d le] nq False
        show ?thesis by simp
      qed
    qed
  qed
  from a b c show ?thesis by blast
qed

theorem no_config_validation_witness:
  "single_test 2 (- 5) (download_env 0) =
     ([CreateSession, StartMonitor, StartDownload 0, StartDownload 1], Inl ValueError) \<and>
   run_test 2 0 (download_env 0) =
     ([GetTargetIP, StartMonitor, StartDownload 0, StartDownload 1, Sleep 0, StopRunning],
      Inl ZeroDivisionError) \<and>
   single_test (- 3) 30 (download_env 0) =
     ([CreateSession, StartMonitor, Sleep 30, StopRunning, CloseSession],
      Inr \<lparr>threads = - 3, duration = 30, total_mb = 0, avg_speed = 0, speeds = [], lats = [],
           max_speed = 0, min_speed = 0, avg_latency = 0\<rparr>)"
proof -
  have l: "thread_limit (download_env 0) = None" by simp
  have q: "quiet (download_env 0)" by simp
  have two: "[0..<nat 2] = [0, Suc 0]" by (simp add: upt_rec)
  have h1: "(- 5 :: int) \<le> 0" and h2: "(0 :: int) \<le> 0"
    and h3: "(- 3 :: int) < 1" and h4: "(0 :: int) < 30"
    and h5: "\<not> (- 5 :: int) < - sleep_max" and h6: "\<not> sleep_max < (30 :: int)"
    by (simp_all add: sleep_max_def)
  from no_config_validation [of "- 5" 2 "download_env 0"] h1 h5 l two
  have a: "single_test 2 (- 5) (download_env 0) =
     ([CreateSession, StartMonitor, StartDownload 0, StartDownload 1], Inl ValueError)"
    by simp
  from no_config_validation [of 0 2 "download_env 0"] h2 l two
  have b: "run_test 2 0 (download_env 0) =
     ([GetTargetIP, StartMonitor, StartDownload 0, StartDownload 1, Sleep 0, StopRunning],
      Inl ZeroDivisionError)"
    by simp
  from no_config_validation [of 30 "- 3" "download_env 0"] h3 h4 h6 l q
  have c: "single_test (- 3) 30 (download_env 0) =
     ([CreateSession, StartMonitor, Sleep 30, StopRunning, CloseSession],
      Inr (summary (- 3) 30 (observed (download_env 0))))"
    by simp
  from a b c show ?thesis
    by (simp add: summary_def observed_download_env initial_def)
qed

text \<open>
  With 0 workers and 10 seconds the test starts the monitor, waits and returns a result;
  with 4 workers and 0 seconds it starts all five threads before it fails.
\<close>

theorem no_config_validation_counterexample:
  "single_test 0 10 (download_env 0) =
     ([CreateSession, StartMonitor, Sleep 10, StopRunning, CloseSession],
      Inr \<lparr>threads = 0, duration = 10, total_mb = 0, avg_speed = 0, speeds = [], lats = [],
           max_speed = 0, min_speed = 0, avg_latency = 0\<rparr>) \<and>
   single_test 4 0 (download_env 0) =
     ([CreateSession, StartMonitor, StartDownload 0, StartDownload 1, StartDownload 2,
       StartDownload 3, Sleep 0, StopRunning],
      Inl ZeroDivisionError)"
proof -
  have st0: "start_threads (thread_limit (download_env 0)) 0 = ([StartMonitor], Inr ())"
    by (simp add: start_threads_def)
  have st4: "start_threads (thread_limit (download_env 0)) 4 =
      ([StartMonitor, StartDownload 0, StartDownload 1, StartDownload 2, StartDownload 3], Inr ())"
    by (simp add: start_threads_def upt_rec)
  have q: "quiet (download_env 0)" by simp
  show ?thesis
    by (simp add: single_test_started [OF st0 q] single_test_zero [OF st4] summary_def
        observed_download_env initial_def sleep_max_def)
qed

section \<open>The monitor after the flag is cleared\<close>

lemma thread_step_running: "running (thread_step e s) = running s"
  by (cases e) (simp_all add: download_chunk_def monitor_tick_Inr)

lemma thread_step_idle:
  assumes "\<not> running s" and "pc s \<noteq> Sleeping"
  shows "pc (thread_step e s) \<noteq> Sleeping"
    and "download_speeds (thread_step e s) = download_speeds s"
  using assms by (cases e; simp add: download_chunk_def)+

lemma exec_idle:
  assumes "\<not> running s" and "pc s \<noteq> Sleeping"
  shows "download_speeds (exec es s) = download_speeds s"
  using assms
proof (induction es arbitrary: s)
  case Nil
  show ?case by simp
next
  case (Cons e es)
  have "\<not> running (thread_step e s)" using Cons.prems(1) by (simp add: thread_step_running)
  moreover have "pc (thread_step e s) \<noteq> Sleeping"
    using Cons.prems by (rule thread_step_idle(1))
  ultimately have "download_speeds (exec es (thread_step e s)) = download_speeds (thread_step e s)"
    by (rule Cons.IH)
  also have "\<dots> = download_speeds s" using Cons.prems by (rule thread_step_idle(2))
  finally show ?case by simp
qed

lemma thread_step_sleeping:
  assumes "pc s = Sleeping"
  shows "(pc (thread_step e s) = Sleeping \<and> download_speeds (thread_step e s) = download_speeds s) \<or>
         (pc (thread_step e s) \<noteq> Sleeping \<and>
          length (download_speeds (thread_step e s)) \<le> Suc (length (download_speeds s)))"
  using assms by (cases e) (simp_all add: download_chunk_def monitor_tick_Inr)

lemma exec_sleeping:
  assumes "\<not> running s" and "pc s = Sleeping"
  shows "length (download_speeds (exec es s)) \<le> Suc (length (download_speeds s))"
  using assms
proof (induction es arbitrary: s)
  case Nil
  show ?case by simp
next
  case (Cons e es)
  have nr: "\<not> running (thread_step e s)" using Cons.prems(1) by (simp add: thread_step_running)
  from thread_step_sleeping [OF Cons.prems(2), of e] show ?case
  proof
    assume a: "pc (thread_step e s) = Sleeping \<and>
      download_speeds (thread_step e s) = download_speeds s"
    with Cons.IH [OF nr] show ?thesis by simp
  next
    assume a: "pc (thread_step e s) \<noteq> Sleeping \<and>
      length (download_speeds (thread_step e s)) \<le> Suc (length (download_speeds s))"
    with exec_idle [OF nr, of es] show ?thesis by simp
  qed
qed

text \<open>
  Claim C9, as amended. Once \<open>running\<close> is cleared the monitor appends at most one more
  sample, whatever the other threads do. If the monitor is not in its sleep at that moment
  (it is about to test \<open>running\<close>, or has ended) it appends none. If it is in its sleep,
  the tick that ends the sleep, the clock having advanced, appends one sample that holds
  all the bytes counted since the previous tick, and the monitor ends at its next test of
  \<open>running\<close>.
\<close>

theorem at_most_one_tick_after_stop:
  "\<not> running s \<longrightarrow>
     length (download_speeds (exec es s)) \<le> Suc (length (download_speeds s)) \<and>
     (pc s \<noteq> Sleeping \<longrightarrow> download_speeds (exec es s) = download_speeds s) \<and>
     (pc s = Sleeping \<and> last_time s < now \<longrightarrow>
        download_speeds (exec [MonTick now stamp probe, MonTest] s) =
          download_speeds s @
            [(stamp, real_of_int (total_bytes s - last_bytes s) / (now - last_time s) / (1024 * 1024))] \<and>
        last_bytes (exec [MonTick now stamp probe, MonTest] s) = total_bytes s \<and>
        pc (exec [MonTick now stamp probe, MonTest] s) = Exited)"
proof
  assume nr: "\<not> running s"
  have a: "length (download_speeds (exec es s)) \<le> Suc (length (download_speeds s))"
  proof (cases "pc s = Sleeping")
    case True
    with nr show ?thesis by (rule exec_sleeping)
  next
    case False
    with nr have "download_speeds (exec es s) = download_speeds s" by (rule exec_idle)
    then show ?thesis by simp
  qed
  have b: "download_speeds (exec es s) = download_speeds s" if "pc s \<noteq> Sleeping"
    using nr that by (rule exec_idle)
  have c: "download_speeds (exec [MonTick now stamp probe, MonTest] s) =
          download_speeds s @
            [(stamp, real_of_int (total_bytes s - last_bytes s) / (now - last_time s) / (1024 * 1024))] \<and>
        last_bytes (exec [MonTick now stamp probe, MonTest] s) = total_bytes s \<and>
        pc (exec [MonTick now stamp probe, MonTest] s) = Exited"
    if "pc s = Sleeping" and "last_time s < now"
    using that nr by (simp add: monitor_tick_Inr)
  from a b c show "length (download_speeds (exec es s)) \<le> Suc (length (download_speeds s)) \<and>
     (pc s \<noteq> Sleeping \<longrightarrow> download_speeds (exec es s) = download_speeds s) \<and>
     (pc s = Sleeping \<and> last_time s < now \<longrightarrow>
        download_speeds (exec [MonTick now stamp probe, MonTest] s) =
          download_speeds s @
            [(stamp, real_of_int (total_bytes s - last_bytes s) / (now - last_time s) / (1024 * 1024))] \<and>
        last_bytes (exec [MonTick now stamp probe, MonTest] s) = total_bytes s \<and>
        pc (exec [MonTick now stamp probe, MonTest] s) = Exited)"
    by blast
qed

theorem at_most_one_tick_after_stop_witness:
  "\<not> running (stop (exec [MonTest, Add 0 ''abcd''] (initial 0 0))) \<and>
   pc (stop (exec [MonTest, Add 0 ''abcd''] (initial 0 0))) = Sleeping \<and>
   last_time (stop (exec [MonTest, Add 0 ''abcd''] (initial 0 0))) < 1 \<and>
   download_speeds (exec [MonTick 1 1 None, MonTest]
       (stop (exec [MonTest, Add 0 ''abcd''] (initial 0 0)))) = [(1, 4 / 1048576)] \<and>
   pc (exec [MonTick 1 1 None, MonTest]
       (stop (exec [MonTest, Add 0 ''abcd''] (initial 0 0)))) = Exited \<and>
   pc (stop (initial 0 0)) \<noteq> Sleeping \<and>
   download_speeds (exec [Add 0 ''abcd'', MonTest, MonTick 1 1 None] (stop (initial 0 0))) = []"
proof -
  let ?s = "stop (exec [MonTest, Add 0 ''abcd''] (initial 0 0))"
  let ?t = "stop (initial 0 0)"
  have s: "\<not> running ?s" "pc ?s = Sleeping" "last_time ?s < 1"
    "download_speeds ?s = []" "total_bytes ?s = 4" "last_bytes ?s = 0" "last_time ?s = 0"
    by (simp_all add: stop_def initial_def download_chunk_def)
  have t: "\<not> running ?t" "pc ?t \<noteq> Sleeping" "download_speeds ?t = []"
    by (simp_all add: stop_def initial_def)
  from at_most_one_tick_after_stop [of ?s "[]" 1 1 None] s
  have a: "download_speeds (exec [MonTick 1 1 None, MonTest] ?s) = [(1, 4 / 1048576)] \<and>
      pc (exec [MonTick 1 1 None, MonTest] ?s) = Exited"
    by simp
  from at_most_one_tick_after_stop [of ?t "[Add 0 ''abcd'', MonTest, MonTick 1 1 None]" 1 1 None] t
  have b: "download_speeds (exec [Add 0 ''abcd'', MonTest, MonTick 1 1 None] ?t) = []"
    by simp
  from a b s(1-3) t(2) show ?thesis by blast
qed

text \<open>
  The flag is cleared after a tick of the monitor and before its next test of \<open>running\<close>:
  the monitor ends without another tick, and the 2 bytes counted since its last tick are in
  no sample.
\<close>

theorem at_most_one_tick_after_stop_counterexample:
  "exec [MonTest, MonTick 2 2 None, MonTest]
     (stop (exec [MonTest, Add 0 ''abcd'', MonTick 1 1 None, Add 0 ''xy''] (initial 0 0))) =
   \<lparr>total_bytes = 6, running = False, start_time = 0, pc = Exited,
    last_bytes = 4, last_time = 1,
    download_speeds = [(1, 4 / 1048576)], latencies = [],
    progress = [(1, 4 / 1048576, 4 / 1048576, 4 / 1048576)]\<rparr>"
  by (simp add: stop_def initial_def download_chunk_def monitor_tick_Inr truthy_def)

end
